theory Spec2Isabelle
  imports Complex_Main
begin

section \<open>Exceptions and calls into the libraries\<close>

text \<open>
  The notebooks are Python scripts over three libraries (the simulator, the training
  library and the plotting library). A library call may raise: its outcome is a parameter
  of the model, an oracle that gives the exception (of type \<open>'e\<close>, whatever the library
  raises) or the result, and for a call that writes files also the files as it leaves them.
  An exception that reaches notebook code is a value of \<open>'e exn\<close>: either the library's
  own (\<open>LibError\<close>), or one the Python interpreter raises for the notebook's own
  expressions (an unbound name, an index out of range, an unset attribute, a division by
  zero), or one \<open>os.mkdir\<close> and \<open>os.remove\<close> raise for what the files show (the path
  exists, is missing, is a directory).
\<close>

datatype 'e exn =
    LibError 'e
  | NameError
  | IndexError
  | AttributeError
  | ZeroDivisionError
  | FileNotFoundError
  | FileExistsError
  | IsADirectoryError

section \<open>Routed sequencing: the input function\<close>

text \<open>
  \<^verbatim>\<open>
    def start(t):
        if t < 0.4:
            return '0.8*START+D'
        else:
            return '0'
  \<close>
  The simulator passes the time \<open>t\<close> as a float. A float is a finite value, an infinity
  or a NaN; \<open>py_lt\<close> is Python's \<open><\<close> on floats (every comparison with a NaN is false).
  The literal \<open>0.4\<close> denotes the double nearest to 4/10, which is
  3602879701896397 / 2^53.
\<close>

datatype pyfloat = Finite real | PosInf | NegInf | NaN

fun py_lt :: "pyfloat \<Rightarrow> pyfloat \<Rightarrow> bool" where
  "py_lt NaN _ = False"
| "py_lt _ NaN = False"
| "py_lt (Finite a) (Finite b) = (a < b)"
| "py_lt (Finite a) PosInf = True"
| "py_lt NegInf (Finite b) = True"
| "py_lt NegInf PosInf = True"
| "py_lt _ _ = False"

fun py_ge :: "pyfloat \<Rightarrow> pyfloat \<Rightarrow> bool" where
  "py_ge NaN _ = False"
| "py_ge _ NaN = False"
| "py_ge (Finite a) (Finite b) = (a \<ge> b)"
| "py_ge PosInf _ = True"
| "py_ge _ NegInf = True"
| "py_ge _ _ = False"

definition lit_0_4 :: pyfloat where
  "lit_0_4 = Finite (3602879701896397 / 2 ^ 53)"

definition start :: "pyfloat \<Rightarrow> string" where
  "start t = (if py_lt t lit_0_4 then ''0.8*START+D'' else ''0'')"

section \<open>Routed sequencing: the rule table\<close>

text \<open>
  \<^verbatim>\<open>
    actions = spa.Actions(
        'dot(vision, START) --> state = vision',
        'dot(state, A) --> state = B',
        'dot(state, B) --> state = C',
        'dot(state, C) --> state = D',
        'dot(state, D) --> state = E',
        'dot(state, E) --> state = A'
    )
  \<close>
  The notebook writes six rules and hands them to the library, which carries them out. A
  rule reads \<open>dot(module, POINTER) --> module = operand\<close>: its condition compares what a
  module holds with a semantic pointer, and its effect assigns to a module either a
  semantic pointer (a capitalised name) or what another module holds (a lower-case name).
  \<open>rule_text\<close> writes a rule as the notebook writes it.
\<close>

datatype operand = Pointer string | Module string

record spa_rule =
  cond_module :: string
  cond_pointer :: string
  sink :: string
  assigned :: operand

definition actions :: "spa_rule list" where
  "actions =
     [\<lparr>cond_module = ''vision'', cond_pointer = ''START'', sink = ''state'',
         assigned = Module ''vision''\<rparr>,
      \<lparr>cond_module = ''state'', cond_pointer = ''A'', sink = ''state'', assigned = Pointer ''B''\<rparr>,
      \<lparr>cond_module = ''state'', cond_pointer = ''B'', sink = ''state'', assigned = Pointer ''C''\<rparr>,
      \<lparr>cond_module = ''state'', cond_pointer = ''C'', sink = ''state'', assigned = Pointer ''D''\<rparr>,
      \<lparr>cond_module = ''state'', cond_pointer = ''D'', sink = ''state'', assigned = Pointer ''E''\<rparr>,
      \<lparr>cond_module = ''state'', cond_pointer = ''E'', sink = ''state'', assigned = Pointer ''A''\<rparr>]"

fun operand_text :: "operand \<Rightarrow> string" where
  "operand_text (Pointer p) = p"
| "operand_text (Module m) = m"

definition rule_text :: "spa_rule \<Rightarrow> string" where
  "rule_text r =
     ''dot('' @ cond_module r @ '', '' @ cond_pointer r @ '') --> '' @ sink r @ '' = ''
       @ operand_text (assigned r)"

text \<open>
  The table read as a transition system on what the module \<open>state\<close> holds. Its states
  are the pointers that the conditions on \<open>state\<close> name; \<open>rule_step r p\<close> is the pointer
  that rule \<open>r\<close> puts into \<open>state\<close> when \<open>state\<close> holds \<open>p\<close>, if \<open>r\<close> is a rule from
  \<open>state\<close> holding \<open>p\<close> to \<open>state\<close> holding a pointer; \<open>transition p\<close> is the pointer
  the first such rule of the table gives.
\<close>

definition table_states :: "string list" where
  "table_states =
     remdups (List.map_filter
       (\<lambda>r. if cond_module r = ''state'' then Some (cond_pointer r) else None) actions)"

definition rule_step :: "spa_rule \<Rightarrow> string \<Rightarrow> string option" where
  "rule_step r p =
     (if cond_module r = ''state'' \<and> cond_pointer r = p \<and> sink r = ''state''
      then (case assigned r of Pointer q \<Rightarrow> Some q | Module m \<Rightarrow> None)
      else None)"

definition transition :: "string \<Rightarrow> string option" where
  "transition p =
     (case List.map_filter (\<lambda>r. rule_step r p) actions of
        [] \<Rightarrow> None
      | q # qs \<Rightarrow> Some q)"

section \<open>The autoencoder notebook\<close>

subsection \<open>Network parameters and the two TensorNode classes\<close>

definition n_hidden_1 :: int where "n_hidden_1 = 256"
definition n_hidden_2 :: int where "n_hidden_2 = 128"
definition n_input :: int where "n_input = 784"

text \<open>
  \<open>Encoder\<close> and \<open>Decoder\<close> objects have three attributes, set by \<open>pre_build\<close> and
  unset before it: reading an unset attribute raises AttributeError. Shapes are sequences,
  indexed as Python indexes them: \<open>getitem xs i\<close> is \<open>xs[i]\<close>, counted from the end when
  \<open>i\<close> is negative, and \<open>None\<close> where Python raises IndexError.
\<close>

record 'd tensor_func =
  n_mini :: "'d option"
  size_in :: "'d option"
  size_out :: "'d option"

definition Encoder :: "'d tensor_func" where
  "Encoder = \<lparr>n_mini = None, size_in = None, size_out = None\<rparr>"

definition Decoder :: "'d tensor_func" where
  "Decoder = \<lparr>n_mini = None, size_in = None, size_out = None\<rparr>"

definition getitem :: "'a list \<Rightarrow> int \<Rightarrow> 'a option" where
  "getitem xs i =
     (if 0 \<le> i \<and> i < int (length xs) then Some (xs ! nat i)
      else if - int (length xs) \<le> i \<and> i < 0 then Some (xs ! nat (int (length xs) + i))
      else None)"

text \<open>
  \<^verbatim>\<open>
    def pre_build(self, shape_in, shape_out):
        self.n_mini = shape_in[0]
        self.size_in = shape_in[1]
        self.size_out = shape_out[1]
  \<close>
  The same body in both classes. The object is returned as the assignments left it, with
  the exception if one was raised.
\<close>

definition pre_build ::
  "'d tensor_func \<Rightarrow> 'd list \<Rightarrow> 'd list \<Rightarrow> 'e exn option \<times> 'd tensor_func" where
  "pre_build self shape_in shape_out =
     (case getitem shape_in 0 of
        None \<Rightarrow> (Some IndexError, self)
      | Some a \<Rightarrow>
          (let self1 = self\<lparr>n_mini := Some a\<rparr> in
           case getitem shape_in 1 of
             None \<Rightarrow> (Some IndexError, self1)
           | Some b \<Rightarrow>
               (let self2 = self1\<lparr>size_in := Some b\<rparr> in
                case getitem shape_out 1 of
                  None \<Rightarrow> (Some IndexError, self2)
                | Some c \<Rightarrow> (None, self2\<lparr>size_out := Some c\<rparr>))))"

text \<open>
  \<open>tf.contrib.layers.fully_connected\<close> is the external dense-layer primitive. It adds
  variables to the graph under construction and may raise, so it is a parameter
  \<open>fc x units g\<close> that returns the outcome and the graph \<open>g\<close> as the call left it.

  \<^verbatim>\<open>
    def __call__(self, t, x):                                    # Encoder
        dense = tf.contrib.layers.fully_connected(x, n_hidden_1)
        dense = tf.contrib.layers.fully_connected(dense, n_hidden_2)
        return dense

    def __call__(self, t, x):                                    # Decoder
        dense = tf.contrib.layers.fully_connected(x, n_hidden_1)
        dense = tf.contrib.layers.fully_connected(dense, self.size_out)
        return dense
  \<close>
\<close>

type_synonym ('e, 'x, 'g) dense = "'x \<Rightarrow> int \<Rightarrow> 'g \<Rightarrow> ('e + 'x) \<times> 'g"

definition Encoder_call ::
  "('e, 'x, 'g) dense \<Rightarrow> int tensor_func \<Rightarrow> 't \<Rightarrow> 'x \<Rightarrow> 'g \<Rightarrow> ('e exn + 'x) \<times> 'g" where
  "Encoder_call fully_connected self t x g =
     (case fully_connected x n_hidden_1 g of
        (Inl e, g1) \<Rightarrow> (Inl (LibError e), g1)
      | (Inr dense, g1) \<Rightarrow>
          (case fully_connected dense n_hidden_2 g1 of
             (Inl e, g2) \<Rightarrow> (Inl (LibError e), g2)
           | (Inr dense', g2) \<Rightarrow> (Inr dense', g2)))"

definition Decoder_call ::
  "('e, 'x, 'g) dense \<Rightarrow> int tensor_func \<Rightarrow> 't \<Rightarrow> 'x \<Rightarrow> 'g \<Rightarrow> ('e exn + 'x) \<times> 'g" where
  "Decoder_call fully_connected self t x g =
     (case fully_connected x n_hidden_1 g of
        (Inl e, g1) \<Rightarrow> (Inl (LibError e), g1)
      | (Inr dense, g1) \<Rightarrow>
          (case size_out self of
             None \<Rightarrow> (Inl AttributeError, g1)
           | Some units \<Rightarrow>
               (case fully_connected dense units g1 of
                  (Inl e, g2) \<Rightarrow> (Inl (LibError e), g2)
                | (Inr dense', g2) \<Rightarrow> (Inr dense', g2))))"

text \<open>
  What the specification says the two methods are: the dense layer of \<open>a\<close> units, then
  the dense layer of \<open>b\<close> units on its result, and nothing else.
\<close>

definition two_dense_layers ::
  "('e, 'x, 'g) dense \<Rightarrow> int \<Rightarrow> int \<Rightarrow> 'x \<Rightarrow> 'g \<Rightarrow> ('e exn + 'x) \<times> 'g" where
  "two_dense_layers fc a b x g =
     (case fc x a g of
        (Inl e, g1) \<Rightarrow> (Inl (LibError e), g1)
      | (Inr y, g1) \<Rightarrow>
          (case fc y b g1 of
             (Inl e, g2) \<Rightarrow> (Inl (LibError e), g2)
           | (Inr z, g2) \<Rightarrow> (Inr z, g2)))"

text \<open>
  To count the calls a method makes, the primitive is run on a graph paired with the
  list of the calls made so far (input and number of units of each).
\<close>

definition logged :: "('e, 'x, 'g) dense \<Rightarrow> ('e, 'x, 'g \<times> ('x \<times> int) list) dense" where
  "logged fc x units gl =
     (case fc x units (fst gl) of (r, g') \<Rightarrow> (r, (g', snd gl @ [(x, units)])))"

subsection \<open>The training data\<close>

text \<open>
  \<^verbatim>\<open>
    def gen_data(steps, batchsize, pos):
        ...
        input_array = []
        for k in range(batchsize):
            input_array.append(nengo.processes.PresentInput(
                mnist.train.images[pos + k:], 0.001*steps).run(0.001*steps))
        in_dict = {inp:np.asarray(input_array)}
        out_dict = {output_probe:np.asarray(input_array)}
        return in_dict, out_dict
  \<close>
  \<open>PresentInput(mnist.train.images[p:], 0.001*steps).run(0.001*steps)\<close> is a library
  call on the loaded dataset: the parameter \<open>present p steps\<close>. An array built by
  \<open>np.asarray\<close> from a list of rows is the list of its rows. The keys of the dictionaries
  are objects of the network. (The four lists the function also assigns and never reads
  are left out.)
\<close>

datatype nengo_obj = inp | input_probe | output_probe

type_synonym 'arr feed = "nengo_obj \<rightharpoonup> 'arr list"

fun gen_rows ::
  "(int \<Rightarrow> int \<Rightarrow> 'e + 'arr) \<Rightarrow> int \<Rightarrow> int \<Rightarrow> int list \<Rightarrow> 'arr list \<Rightarrow> 'e exn + 'arr list" where
  "gen_rows present steps pos [] input_array = Inr input_array"
| "gen_rows present steps pos (k # ks) input_array =
     (case present (pos + k) steps of
        Inl e \<Rightarrow> Inl (LibError e)
      | Inr row \<Rightarrow> gen_rows present steps pos ks (input_array @ [row]))"

definition gen_data ::
  "(int \<Rightarrow> int \<Rightarrow> 'e + 'arr) \<Rightarrow> int \<Rightarrow> int \<Rightarrow> int \<Rightarrow> 'e exn + ('arr feed \<times> 'arr feed)" where
  "gen_data present steps batchsize pos =
     (case gen_rows present steps pos [0..batchsize - 1] [] of
        Inl x \<Rightarrow> Inl x
      | Inr input_array \<Rightarrow>
          Inr ([inp \<mapsto> input_array], [output_probe \<mapsto> input_array]))"

subsection \<open>The network\<close>

text \<open>
  \<^verbatim>\<open>
    tf_encode = nengo_dl.TensorNode(Encoder(), size_in=28 * 28, size_out=n_hidden_2, label='H1')
    tf_decode = nengo_dl.TensorNode(Decoder(), size_in=n_hidden_2, size_out=n_input, label='H2')
    nengo.Connection(inp, tf_encode)
    nengo.Connection(tf_encode, tf_decode)
  \<close>
\<close>

record tensor_node =
  tn_size_in :: int
  tn_size_out :: int
  tn_label :: string

definition tf_encode :: tensor_node where
  "tf_encode = \<lparr>tn_size_in = 28 * 28, tn_size_out = n_hidden_2, tn_label = ''H1''\<rparr>"

definition tf_decode :: tensor_node where
  "tf_decode = \<lparr>tn_size_in = n_hidden_2, tn_size_out = n_input, tn_label = ''H2''\<rparr>"

subsection \<open>What the training cell works on\<close>

text \<open>A path of the working directory holds a directory or a regular file.\<close>

datatype fnode = Directory | File

text \<open>
  A Python number is an int or a float. Floats are a type parameter \<open>'f\<close>, and their
  arithmetic is a parameter too: no law of arithmetic is assumed of it.
\<close>

datatype 'f pynum = PInt int | PFloat 'f

text \<open>What the cell prints, line by line.\<close>

datatype 'f printed =
    Print_losses "'f list"
  | Print_delta 'f
  | Print_progress int int
  | Print_ETA 'f

text \<open>
  The libraries, as the cell calls them. \<open>Inl e\<close> is the call raising \<open>e\<close>.
  \<^item> \<open>present p steps\<close>: \<open>PresentInput(mnist.train.images[p:], 0.001*steps).run(0.001*steps)\<close>;
  \<^item> \<open>Simulator\<close>: \<open>nengo_dl.Simulator(net, step_blocks=steps, minibatch_size=n_examples)\<close>;
  \<^item> \<open>MomentumOptimizer\<close>: \<open>tf.train.MomentumOptimizer(learning_rate, 0.9)\<close>, \<open>Some e\<close> when
    it raises;
  \<^item> \<open>sim_loss\<close>, \<open>sim_run\<close>, \<open>sim_train\<close>, \<open>sim_load_params\<close>: the methods of the
    simulator object, on its current state (\<open>sim_load_params\<close> reads the files);
  \<^item> \<open>lib_urlretrieve url filename fs\<close>: \<open>urlretrieve(url, filename)\<close> on the files
    \<open>fs\<close>: the exception it raises, if any (the server fails, the file cannot be
    written: the path is a directory, its parent is none), and the files as it leaves them;
  \<^item> \<open>lib_extractall path dir fs\<close>: \<open>zipfile.ZipFile(path)\<close> followed by
    \<open>extractall(dir)\<close> on the files \<open>fs\<close>: the exception raised, if any (no file, no zip
    archive, a member that cannot be written), and the files as the two calls leave them;
  \<^item> \<open>mkdir_refused p fs\<close>, \<open>remove_refused p fs\<close>: what \<open>os.mkdir(p)\<close> and
    \<open>os.remove(p)\<close> raise for a reason the files do not show (a permission, a read-only
    medium), \<open>None\<close> when there is none;
  \<^item> \<open>clock k\<close>: what the \<open>k\<close>-th call of \<open>time.time()\<close> returns;
  \<^item> the arithmetic of floats.
\<close>

record ('e, 'sim, 'arr, 'f) ext =
  present :: "int \<Rightarrow> int \<Rightarrow> 'e + 'arr"
  Simulator :: "'e + 'sim"
  MomentumOptimizer :: "'e option"
  sim_loss :: "'sim \<Rightarrow> 'arr feed \<Rightarrow> 'arr feed \<Rightarrow> 'e + 'f"
  sim_run :: "'sim \<Rightarrow> int \<Rightarrow> 'e + 'sim"
  sim_train :: "'sim \<Rightarrow> 'arr feed \<Rightarrow> 'arr feed \<Rightarrow> 'e + 'sim"
  sim_load_params :: "'sim \<Rightarrow> (string \<rightharpoonup> fnode) \<Rightarrow> string \<Rightarrow> 'e + 'sim"
  lib_urlretrieve ::
    "string \<Rightarrow> string \<Rightarrow> (string \<rightharpoonup> fnode) \<Rightarrow> 'e option \<times> (string \<rightharpoonup> fnode)"
  lib_extractall ::
    "string \<Rightarrow> string \<Rightarrow> (string \<rightharpoonup> fnode) \<Rightarrow> 'e option \<times> (string \<rightharpoonup> fnode)"
  mkdir_refused :: "string \<Rightarrow> (string \<rightharpoonup> fnode) \<Rightarrow> 'e option"
  remove_refused :: "string \<Rightarrow> (string \<rightharpoonup> fnode) \<Rightarrow> 'e option"
  clock :: "nat \<Rightarrow> 'f"
  f_add :: "'f \<Rightarrow> 'f \<Rightarrow> 'f"
  f_sub :: "'f \<Rightarrow> 'f \<Rightarrow> 'f"
  f_mul :: "'f \<Rightarrow> 'f \<Rightarrow> 'f"
  f_div :: "'f \<Rightarrow> 'f \<Rightarrow> 'f"
  f_of_int :: "int \<Rightarrow> 'f"

text \<open>
  The state the cell runs in. Outside the kernel: the files of the working directory, the
  URLs \<open>urlretrieve\<close> was asked for so far (each call opens its URL, a network request,
  before it writes the file), the number of clock readings so far, the lines printed so
  far, the pairs of dictionaries \<open>sim.train\<close> was called with so far, and the exceptions
  raised so far (by a library or by the interpreter), each at the point where it is raised.
  Inside the kernel: the variables of the cell. \<open>input_dict\<close> and \<open>output_dict\<close> are
  unbound (\<open>None\<close>) until assigned; every other variable is assigned by the cell before
  the cell reads it.
\<close>

record ('e, 'sim, 'arr, 'f) nb =
  files :: "string \<rightharpoonup> fnode"
  requests :: "string list"
  ticks :: nat
  stdout :: "'f printed list"
  trained :: "('arr feed \<times> 'arr feed) list"
  raised :: "'e exn list"
  sim :: 'sim
  input_dict :: "'arr feed option"
  output_dict :: "'arr feed option"
  losses :: "'f list"
  start_time :: 'f
  round_time :: "'f pynum"
  counted :: int
  delta :: "'f pynum"
  old_delta :: "'f pynum"

text \<open>
  A statement takes the state and returns the state as it left it, with the exception it
  raised, if any. A block runs its statements in order and stops at the first exception;
  a \<open>for\<close> loop runs its body on each element in order and stops at the first exception.
\<close>

type_synonym ('e, 's) stmt = "'s \<Rightarrow> 'e exn option \<times> 's"

fun block :: "('e, 's) stmt list \<Rightarrow> ('e, 's) stmt" where
  "block [] s = (None, s)"
| "block (p # ps) s =
     (case p s of
        (None, s') \<Rightarrow> block ps s'
      | (Some x, s') \<Rightarrow> (Some x, s'))"

fun for_each :: "'i list \<Rightarrow> ('i \<Rightarrow> ('e, 's) stmt) \<Rightarrow> ('e, 's) stmt" where
  "for_each [] body s = (None, s)"
| "for_each (i # is) body s =
     (case body i s of
        (None, s') \<Rightarrow> for_each is body s'
      | (Some x, s') \<Rightarrow> (Some x, s'))"

text \<open>Raising an exception: it is recorded, and the statement ends with it.\<close>

definition py_raise :: "'e exn \<Rightarrow> ('e, ('e, 'sim, 'arr, 'f) nb) stmt" where
  "py_raise x s = (Some x, s\<lparr>raised := raised s @ [x]\<rparr>)"

subsection \<open>The constants of the training cell\<close>

text \<open>
  \<open>n_iters = int(55000/(n_examples))\<close>: the quotient of two positive ints, truncated.
\<close>

definition n_examples :: int where "n_examples = 64"
definition n_iters :: int where "n_iters = 55000 div n_examples"
definition steps :: int where "steps = 10"
definition repetitions :: int where "repetitions = 15"

definition param_dir :: string where "param_dir = ''nengo_autoencoder''"

definition os_path_join :: "string \<Rightarrow> string \<Rightarrow> string" where
  "os_path_join a b = a @ ''/'' @ b"

definition param_path :: string where
  "param_path = os_path_join param_dir ''Nengo-Autoencoder''"

definition param_zip_path :: string where
  "param_zip_path = os_path_join param_dir ''nengo-autoencoder-params.zip''"

definition weights_url :: string where
  "weights_url =
     ''https://github.com/clvcooke/nengo_dl/raw/master/docs/examples/Nengo-Autoencoder-Weights.zip''"

subsection \<open>The statements of the training cell\<close>

text \<open>\<^verbatim>\<open>input_dict, output_dict = gen_data(steps, n_examples, pos)\<close>\<close>

definition assign_gen_data ::
  "('e, 'sim, 'arr, 'f) ext \<Rightarrow> int \<Rightarrow> ('e, ('e, 'sim, 'arr, 'f) nb) stmt" where
  "assign_gen_data X pos s =
     (case gen_data (present X) steps n_examples pos of
        Inl x \<Rightarrow> py_raise x s
      | Inr (i, o') \<Rightarrow> (None, s\<lparr>input_dict := Some i, output_dict := Some o'\<rparr>))"

text \<open>\<^verbatim>\<open>losses.append(sim.loss(input_dict, output_dict, 'mse'))\<close>\<close>

definition append_loss :: "('e, 'sim, 'arr, 'f) ext \<Rightarrow> ('e, ('e, 'sim, 'arr, 'f) nb) stmt" where
  "append_loss X s =
     (case input_dict s of
        None \<Rightarrow> py_raise NameError s
      | Some i \<Rightarrow>
          (case output_dict s of
             None \<Rightarrow> py_raise NameError s
           | Some o' \<Rightarrow>
               (case sim_loss X (sim s) i o' of
                  Inl e \<Rightarrow> py_raise (LibError e) s
                | Inr l \<Rightarrow> (None, s\<lparr>losses := losses s @ [l]\<rparr>))))"

text \<open>\<^verbatim>\<open>print(losses)\<close>\<close>

definition print_losses :: "('e, ('e, 'sim, 'arr, 'f) nb) stmt" where
  "print_losses s = (None, s\<lparr>stdout := stdout s @ [Print_losses (losses s)]\<rparr>)"

text \<open>\<^verbatim>\<open>print("delta: " +str(losses[counted] - losses[counted-1]) )\<close>\<close>

definition print_delta :: "('e, 'sim, 'arr, 'f) ext \<Rightarrow> ('e, ('e, 'sim, 'arr, 'f) nb) stmt" where
  "print_delta X s =
     (case getitem (losses s) (counted s) of
        None \<Rightarrow> py_raise IndexError s
      | Some a \<Rightarrow>
          (case getitem (losses s) (counted s - 1) of
             None \<Rightarrow> py_raise IndexError s
           | Some b \<Rightarrow> (None, s\<lparr>stdout := stdout s @ [Print_delta (f_sub X a b)]\<rparr>)))"

text \<open>
  \<^verbatim>\<open>
    if counted>0:
        old_delta = delta
        delta = losses[counted] - losses[counted-1]
        print("delta: " +str(losses[counted] - losses[counted-1]) )
  \<close>
\<close>

definition assign_delta :: "('e, 'sim, 'arr, 'f) ext \<Rightarrow> ('e, ('e, 'sim, 'arr, 'f) nb) stmt" where
  "assign_delta X s =
     (case getitem (losses s) (counted s) of
        None \<Rightarrow> py_raise IndexError s
      | Some a \<Rightarrow>
          (case getitem (losses s) (counted s - 1) of
             None \<Rightarrow> py_raise IndexError s
           | Some b \<Rightarrow> (None, s\<lparr>delta := PFloat (f_sub X a b)\<rparr>)))"

definition update_delta :: "('e, 'sim, 'arr, 'f) ext \<Rightarrow> ('e, ('e, 'sim, 'arr, 'f) nb) stmt" where
  "update_delta X s =
     (if counted s > 0
      then block [\<lambda>s. (None, s\<lparr>old_delta := delta s\<rparr>), assign_delta X, print_delta X] s
      else (None, s))"

text \<open>\<^verbatim>\<open>sim.run(0.001*steps)\<close>\<close>

definition run_sim :: "('e, 'sim, 'arr, 'f) ext \<Rightarrow> ('e, ('e, 'sim, 'arr, 'f) nb) stmt" where
  "run_sim X s =
     (case sim_run X (sim s) steps of
        Inl e \<Rightarrow> py_raise (LibError e) s
      | Inr sm \<Rightarrow> (None, s\<lparr>sim := sm\<rparr>))"

text \<open>\<^verbatim>\<open>counted = counted + 1\<close>\<close>

definition incr_counted :: "('e, ('e, 'sim, 'arr, 'f) nb) stmt" where
  "incr_counted s = (None, s\<lparr>counted := counted s + 1\<rparr>)"

text \<open>\<^verbatim>\<open>sim.train(input_dict, output_dict, optimizer, n_epochs=2)\<close>\<close>

definition train :: "('e, 'sim, 'arr, 'f) ext \<Rightarrow> ('e, ('e, 'sim, 'arr, 'f) nb) stmt" where
  "train X s =
     (case input_dict s of
        None \<Rightarrow> py_raise NameError s
      | Some i \<Rightarrow>
          (case output_dict s of
             None \<Rightarrow> py_raise NameError s
           | Some o' \<Rightarrow>
               (let s1 = s\<lparr>trained := trained s @ [(i, o')]\<rparr> in
                case sim_train X (sim s1) i o' of
                  Inl e \<Rightarrow> py_raise (LibError e) s1
                | Inr sm \<Rightarrow> (None, s1\<lparr>sim := sm\<rparr>))))"

text \<open>
  \<^verbatim>\<open>
    round_time = (round_time*(i) + time.time() - start_time) / (i+1)
    start_time = time.time()
  \<close>
  \<open>round_time\<close> starts as the int 0 and is a float from the first pass on.
\<close>

definition time_time :: "('e, 'sim, 'arr, 'f) ext \<Rightarrow> ('e, 'sim, 'arr, 'f) nb \<Rightarrow> 'f \<times> ('e, 'sim, 'arr, 'f) nb" where
  "time_time X s = (clock X (ticks s), s\<lparr>ticks := Suc (ticks s)\<rparr>)"

fun mul_int :: "('e, 'sim, 'arr, 'f) ext \<Rightarrow> 'f pynum \<Rightarrow> int \<Rightarrow> 'f pynum" where
  "mul_int X (PInt a) k = PInt (a * k)"
| "mul_int X (PFloat x) k = PFloat (f_mul X x (f_of_int X k))"

fun to_float :: "('e, 'sim, 'arr, 'f) ext \<Rightarrow> 'f pynum \<Rightarrow> 'f" where
  "to_float X (PInt a) = f_of_int X a"
| "to_float X (PFloat x) = x"

definition truediv_int :: "('e, 'sim, 'arr, 'f) ext \<Rightarrow> 'f \<Rightarrow> int \<Rightarrow> 'f option" where
  "truediv_int X x k = (if k = 0 then None else Some (f_div X x (f_of_int X k)))"

definition update_round_time ::
  "('e, 'sim, 'arr, 'f) ext \<Rightarrow> int \<Rightarrow> ('e, ('e, 'sim, 'arr, 'f) nb) stmt" where
  "update_round_time X i s =
     (let prod = mul_int X (round_time s) i;
          (now, s1) = time_time X s;
          num = f_sub X (f_add X (to_float X prod) now) (start_time s1)
      in case truediv_int X num (i + 1) of
           None \<Rightarrow> py_raise ZeroDivisionError s1
         | Some q \<Rightarrow> (None, s1\<lparr>round_time := PFloat q\<rparr>))"

definition restart_timer :: "('e, 'sim, 'arr, 'f) ext \<Rightarrow> ('e, ('e, 'sim, 'arr, 'f) nb) stmt" where
  "restart_timer X s = (let (now, s1) = time_time X s in (None, s1\<lparr>start_time := now\<rparr>))"

text \<open>\<^verbatim>\<open>print("ETA: ~" + str(round_time*((10-e)*n_iters - i-1)/60) + " minutes")\<close>\<close>

definition print_ETA ::
  "('e, 'sim, 'arr, 'f) ext \<Rightarrow> int \<Rightarrow> int \<Rightarrow> ('e, ('e, 'sim, 'arr, 'f) nb) stmt" where
  "print_ETA X e i s =
     (case truediv_int X (to_float X (mul_int X (round_time s) ((10 - e) * n_iters - i - 1))) 60 of
        None \<Rightarrow> py_raise ZeroDivisionError s
      | Some q \<Rightarrow> (None, s\<lparr>stdout := stdout s @ [Print_ETA q]\<rparr>))"

text \<open>
  \<^verbatim>\<open>
    for i in range(n_iters):
        print(str(i+1) + "/" + str(n_iters))
        input_dict, output_dict = gen_data(steps, n_examples, n_examples*i)
        sim.train(input_dict, output_dict, optimizer, n_epochs=2)
        round_time = (round_time*(i) + time.time() - start_time) / (i+1)
        start_time = time.time()
        print("ETA: ~" + str(round_time*((10-e)*n_iters - i-1)/60) + " minutes")
  \<close>
\<close>

definition batch_body ::
  "('e, 'sim, 'arr, 'f) ext \<Rightarrow> int \<Rightarrow> int \<Rightarrow> ('e, ('e, 'sim, 'arr, 'f) nb) stmt" where
  "batch_body X e i =
     block
       [\<lambda>s. (None, s\<lparr>stdout := stdout s @ [Print_progress (i + 1) n_iters]\<rparr>),
        assign_gen_data X (n_examples * i),
        train X,
        update_round_time X i,
        restart_timer X,
        print_ETA X e i]"

text \<open>
  \<^verbatim>\<open>
    for e in range(repetitions):
        input_dict, output_dict = gen_data(steps, n_examples, 0)
        losses.append(sim.loss(input_dict, output_dict, 'mse'))
        print(losses)
        if counted>0: ...
        sim.run(0.001*steps)
        counted = counted + 1
        for i in range(n_iters): ...
  \<close>
\<close>

definition repetition_body ::
  "('e, 'sim, 'arr, 'f) ext \<Rightarrow> int \<Rightarrow> ('e, ('e, 'sim, 'arr, 'f) nb) stmt" where
  "repetition_body X e =
     block
       [assign_gen_data X 0,
        append_loss X,
        print_losses,
        update_delta X,
        run_sim X,
        incr_counted,
        for_each [0..n_iters - 1] (batch_body X e)]"

text \<open>
  The \<open>else\<close> branch of the cell:
  \<^verbatim>\<open>
    optimizer = tf.train.MomentumOptimizer(learning_rate, 0.9)
    for e in range(repetitions): ...
  \<close>
\<close>

definition make_optimizer :: "('e, 'sim, 'arr, 'f) ext \<Rightarrow> ('e, ('e, 'sim, 'arr, 'f) nb) stmt" where
  "make_optimizer X s =
     (case MomentumOptimizer X of Some e \<Rightarrow> py_raise (LibError e) s | None \<Rightarrow> (None, s))"

definition training_branch :: "('e, 'sim, 'arr, 'f) ext \<Rightarrow> ('e, ('e, 'sim, 'arr, 'f) nb) stmt" where
  "training_branch X =
     block [make_optimizer X, for_each [0..repetitions - 1] (repetition_body X)]"

text \<open>
  The file operations of the \<open>LOADING\<close> branch, on the files of the working directory.
  \<open>os.path.exists\<close> never raises. \<open>os.mkdir\<close> raises when the path exists (the path the
  cell makes has no directory part, so its parent is the working directory itself), and
  \<open>os.remove\<close> raises when the path is missing or a directory; both also raise what the
  operating system refuses for reasons of its own. \<open>urlretrieve\<close> and the extraction of
  the archive are calls into their libraries: the call is recorded, and the exception and
  the files are what the library leaves.
\<close>

definition os_path_exists :: "('e, 'sim, 'arr, 'f) nb \<Rightarrow> string \<Rightarrow> bool" where
  "os_path_exists s p = (files s p \<noteq> None)"

definition os_mkdir ::
  "('e, 'sim, 'arr, 'f) ext \<Rightarrow> string \<Rightarrow> ('e, ('e, 'sim, 'arr, 'f) nb) stmt" where
  "os_mkdir X p s =
     (if os_path_exists s p then py_raise FileExistsError s
      else (case mkdir_refused X p (files s) of
              Some e \<Rightarrow> py_raise (LibError e) s
            | None \<Rightarrow> (None, s\<lparr>files := (files s)(p \<mapsto> Directory)\<rparr>)))"

definition urlretrieve ::
  "('e, 'sim, 'arr, 'f) ext \<Rightarrow> string \<Rightarrow> string \<Rightarrow> ('e, ('e, 'sim, 'arr, 'f) nb) stmt" where
  "urlretrieve X url filename s =
     (let s1 = s\<lparr>requests := requests s @ [url]\<rparr> in
      case lib_urlretrieve X url filename (files s1) of
        (Some e, fs) \<Rightarrow> py_raise (LibError e) (s1\<lparr>files := fs\<rparr>)
      | (None, fs) \<Rightarrow> (None, s1\<lparr>files := fs\<rparr>))"

text \<open>
  \<^verbatim>\<open>
    with zipfile.ZipFile(param_zip_path) as f:
        f.extractall("nengo_autoencoder")
  \<close>
\<close>

definition unzip ::
  "('e, 'sim, 'arr, 'f) ext \<Rightarrow> string \<Rightarrow> string \<Rightarrow> ('e, ('e, 'sim, 'arr, 'f) nb) stmt" where
  "unzip X path dir s =
     (case lib_extractall X path dir (files s) of
        (Some e, fs) \<Rightarrow> py_raise (LibError e) (s\<lparr>files := fs\<rparr>)
      | (None, fs) \<Rightarrow> (None, s\<lparr>files := fs\<rparr>))"

definition os_remove ::
  "('e, 'sim, 'arr, 'f) ext \<Rightarrow> string \<Rightarrow> ('e, ('e, 'sim, 'arr, 'f) nb) stmt" where
  "os_remove X p s =
     (case files s p of
        None \<Rightarrow> py_raise FileNotFoundError s
      | Some Directory \<Rightarrow> py_raise IsADirectoryError s
      | Some File \<Rightarrow>
          (case remove_refused X p (files s) of
             Some e \<Rightarrow> py_raise (LibError e) s
           | None \<Rightarrow> (None, s\<lparr>files := (files s)(p := None)\<rparr>)))"

text \<open>\<^verbatim>\<open>sim.load_params(param_path)\<close>\<close>

definition load_params :: "('e, 'sim, 'arr, 'f) ext \<Rightarrow> ('e, ('e, 'sim, 'arr, 'f) nb) stmt" where
  "load_params X s =
     (case sim_load_params X (sim s) (files s) param_path of
        Inl e \<Rightarrow> py_raise (LibError e) s
      | Inr sm \<Rightarrow> (None, s\<lparr>sim := sm\<rparr>))"

text \<open>
  The \<open>LOADING\<close> branch of the cell:
  \<^verbatim>\<open>
    input_dict, output_dict = gen_data(steps, n_examples, 0)
    losses.append(sim.loss(input_dict, output_dict, 'mse'))
    sim.run(0.001*steps)
    param_path = os.path.join("nengo_autoencoder", "Nengo-Autoencoder")
    if not os.path.exists("nengo_autoencoder"):
        os.mkdir("nengo_autoencoder")
    if not os.path.exists(param_path + ".index"):
        param_zip_path = os.path.join("nengo_autoencoder", "nengo-autoencoder-params.zip")
        urlretrieve("https://.../Nengo-Autoencoder-Weights.zip", param_zip_path)
        with zipfile.ZipFile(param_zip_path) as f:
            f.extractall("nengo_autoencoder")
        os.remove(param_zip_path)
    sim.load_params(param_path)
  \<close>
\<close>

definition ensure_dir :: "('e, 'sim, 'arr, 'f) ext \<Rightarrow> ('e, ('e, 'sim, 'arr, 'f) nb) stmt" where
  "ensure_dir X s =
     (if \<not> os_path_exists s param_dir then os_mkdir X param_dir s else (None, s))"

definition ensure_params :: "('e, 'sim, 'arr, 'f) ext \<Rightarrow> ('e, ('e, 'sim, 'arr, 'f) nb) stmt" where
  "ensure_params X s =
     (if \<not> os_path_exists s (param_path @ ''.index'')
      then block
             [urlretrieve X weights_url param_zip_path,
              unzip X param_zip_path param_dir,
              os_remove X param_zip_path] s
      else (None, s))"

definition loading_branch :: "('e, 'sim, 'arr, 'f) ext \<Rightarrow> ('e, ('e, 'sim, 'arr, 'f) nb) stmt" where
  "loading_branch X =
     block
       [assign_gen_data X 0,
        append_loss X,
        run_sim X,
        ensure_dir X,
        ensure_params X,
        load_params X]"

text \<open>
  The cell:
  \<^verbatim>\<open>
    n_examples = 64
    n_iters = int(55000/(n_examples))
    losses = []
    start_time = time.time()
    round_time = 0
    learning_rate = 0.05
    steps = 10
    counted = 0
    delta = 1
    repetitions = 15
    with nengo_dl.Simulator(net, step_blocks=steps, minibatch_size=n_examples) as sim:
        if LOADING: ...
        else: ...
        losses.append(sim.loss(input_dict, output_dict, 'mse'))
        print(losses)
        if counted>0:
            print("delta: " +str(losses[counted] - losses[counted-1]) )
        sim.run(0.001*steps)
        counted = counted + 1
  \<close>
  Leaving the \<open>with\<close> block closes the simulator, after the last statement and after an
  exception alike, and an exception goes on to the caller of the cell; the closing itself
  is not part of the state.
\<close>

definition init_vars :: "('e, 'sim, 'arr, 'f) ext \<Rightarrow> ('e, ('e, 'sim, 'arr, 'f) nb) stmt" where
  "init_vars X s =
     (let s1 = s\<lparr>losses := []\<rparr>;
          (now, s2) = time_time X s1
      in (None, s2\<lparr>start_time := now, round_time := PInt 0, counted := 0, delta := PInt 1\<rparr>))"

definition enter_simulator :: "('e, 'sim, 'arr, 'f) ext \<Rightarrow> ('e, ('e, 'sim, 'arr, 'f) nb) stmt" where
  "enter_simulator X s =
     (case Simulator X of
        Inl e \<Rightarrow> py_raise (LibError e) s
      | Inr sm \<Rightarrow> (None, s\<lparr>sim := sm\<rparr>))"

definition final_delta :: "('e, 'sim, 'arr, 'f) ext \<Rightarrow> ('e, ('e, 'sim, 'arr, 'f) nb) stmt" where
  "final_delta X s = (if counted s > 0 then print_delta X s else (None, s))"

definition training_cell ::
  "('e, 'sim, 'arr, 'f) ext \<Rightarrow> bool \<Rightarrow> ('e, ('e, 'sim, 'arr, 'f) nb) stmt" where
  "training_cell X LOADING =
     block
       [init_vars X,
        enter_simulator X,
        (if LOADING then loading_branch X else training_branch X),
        append_loss X,
        print_losses,
        final_delta X,
        run_sim X,
        incr_counted]"

section \<open>The three scripts as sequences of library calls\<close>










section \<open>Predicates on statements\<close>

text \<open>
  \<open>keeps f p\<close>: the statement \<open>p\<close> leaves \<open>f\<close> of the state as it was, whether it
  completes or raises. \<open>adds p a b c\<close>: when \<open>p\<close> completes, \<open>losses\<close> holds \<open>a\<close> more
  values, \<open>counted\<close> is \<open>b\<close> larger and \<open>sim.train\<close> was called \<open>c\<close> more times.
\<close>

definition keeps :: "('s \<Rightarrow> 'a) \<Rightarrow> ('e, 's) stmt \<Rightarrow> bool" where
  "keeps f p \<longleftrightarrow> (\<forall>s. f (snd (p s)) = f s)"

definition adds :: "('e, ('e, 'sim, 'arr, 'f) nb) stmt \<Rightarrow> nat \<Rightarrow> int \<Rightarrow> nat \<Rightarrow> bool" where
  "adds p a b c \<longleftrightarrow>
     (\<forall>s s'. p s = (None, s') \<longrightarrow>
        length (losses s') = length (losses s) + a \<and> counted s' = counted s + b
        \<and> length (trained s') = length (trained s) + c)"

text \<open>The network requests made and the files stored.\<close>

definition net_fs :: "('e, 'sim, 'arr, 'f) nb \<Rightarrow> string list \<times> (string \<rightharpoonup> fnode)" where
  "net_fs s = (requests s, files s)"

text \<open>
  The cell after its assignments, and the \<open>LOADING\<close> run as one sequence of statements
  around the two that touch the files.
\<close>

definition cell_rest ::
  "('e, 'sim, 'arr, 'f) ext \<Rightarrow> bool \<Rightarrow> ('e, ('e, 'sim, 'arr, 'f) nb) stmt list" where
  "cell_rest X LOADING =
       [enter_simulator X,
        (if LOADING then loading_branch X else training_branch X),
        append_loss X,
        print_losses,
        final_delta X,
        run_sim X,
        incr_counted]"

definition loading_pre :: "('e, 'sim, 'arr, 'f) ext \<Rightarrow> ('e, ('e, 'sim, 'arr, 'f) nb) stmt list" where
  "loading_pre X = [init_vars X, enter_simulator X, assign_gen_data X 0, append_loss X, run_sim X]"

definition loading_post :: "('e, 'sim, 'arr, 'f) ext \<Rightarrow> ('e, ('e, 'sim, 'arr, 'f) nb) stmt list" where
  "loading_post X =
     [load_params X, append_loss X, print_losses, final_delta X, run_sim X, incr_counted]"

text \<open>
  \<open>triple P p Q E\<close>: from a state where \<open>P\<close> holds, the statement \<open>p\<close> ends in a
  state where \<open>Q\<close> holds when it completes, and where \<open>E\<close> holds when it raises.
\<close>

definition triple ::
  "('s \<Rightarrow> bool) \<Rightarrow> ('e, 's) stmt \<Rightarrow> ('s \<Rightarrow> bool) \<Rightarrow> ('s \<Rightarrow> bool) \<Rightarrow> bool" where
  "triple P p Q E \<longleftrightarrow>
     (\<forall>s. P s \<longrightarrow> (if fst (p s) = None then Q (snd (p s)) else E (snd (p s))))"

text \<open>
  A pair of dictionaries carries the same data when the array under the input node in the
  first is the array under the output probe in the second. \<open>trained_on_input\<close>: every
  call of \<open>sim.train\<close> so far was given such a pair. \<open>paired\<close>: the two variables
  are bound and hold such a pair.
\<close>

definition same_data :: "'arr feed \<times> 'arr feed \<Rightarrow> bool" where
  "same_data d \<longleftrightarrow> fst d inp \<noteq> None \<and> fst d inp = snd d output_probe"

definition trained_on_input :: "('e, 'sim, 'arr, 'f) nb \<Rightarrow> bool" where
  "trained_on_input s \<longleftrightarrow> list_all same_data (trained s)"

definition paired :: "('e, 'sim, 'arr, 'f) nb \<Rightarrow> bool" where
  "paired s \<longleftrightarrow>
     (case input_dict s of
        None \<Rightarrow> False
      | Some i \<Rightarrow> (case output_dict s of None \<Rightarrow> False | Some o' \<Rightarrow> same_data (i, o')))"

text \<open>
  A library is reliable for training when none of the calls of the training branch raises.
  \<open>tallied k\<close>: \<open>losses\<close> holds \<open>counted + k\<close> values; \<open>bound\<close>: both dictionaries
  are bound.
\<close>

definition reliable :: "('e, 'sim, 'arr, 'f) ext \<Rightarrow> bool" where
  "reliable X \<longleftrightarrow>
     (\<forall>p n. \<not> isl (present X p n)) \<and> \<not> isl (Simulator X) \<and> MomentumOptimizer X = None
     \<and> (\<forall>sm i o'. \<not> isl (sim_loss X sm i o')) \<and> (\<forall>sm n. \<not> isl (sim_run X sm n))
     \<and> (\<forall>sm i o'. \<not> isl (sim_train X sm i o'))"

definition tallied :: "int \<Rightarrow> ('e, 'sim, 'arr, 'f) nb \<Rightarrow> bool" where
  "tallied k s \<longleftrightarrow> int (length (losses s)) = counted s + k"

definition bound :: "('e, 'sim, 'arr, 'f) nb \<Rightarrow> bool" where
  "bound s \<longleftrightarrow> input_dict s \<noteq> None \<and> output_dict s \<noteq> None"

text \<open>The condition no state meets: as the last argument of a triple, the statement never raises.\<close>

definition nothing :: "'s \<Rightarrow> bool" where
  "nothing s = False"

text \<open>
  \<open>feeds p l\<close>: when \<open>p\<close> completes, the calls of \<open>sim.train\<close> it made were given, in
  this order, the pairs of dictionaries that the calls of \<open>gen_data\<close> listed in \<open>l\<close>
  returned. \<open>honest p\<close>: the exceptions raised while \<open>p\<close> ran are none when \<open>p\<close>
  completes, and the one exception \<open>p\<close> ends with when it raises. \<open>not_index s\<close>: the
  last exception raised is not an IndexError.
\<close>

definition feeds ::
  "('e, ('e, 'sim, 'arr, 'f) nb) stmt \<Rightarrow> ('e exn + 'arr feed \<times> 'arr feed) list \<Rightarrow> bool" where
  "feeds p l \<longleftrightarrow>
     (\<forall>s s'. p s = (None, s') \<longrightarrow> map Inr (trained s') = map Inr (trained s) @ l)"

definition honest :: "('e, ('e, 'sim, 'arr, 'f) nb) stmt \<Rightarrow> bool" where
  "honest p \<longleftrightarrow>
     (\<forall>s. raised (snd (p s)) = raised s @ (case fst (p s) of None \<Rightarrow> [] | Some x \<Rightarrow> [x]))"

definition not_index :: "('e, 'sim, 'arr, 'f) nb \<Rightarrow> bool" where
  "not_index s \<longleftrightarrow> raised s \<noteq> [] \<and> last (raised s) \<noteq> IndexError"


section \<open>Libraries and states for the examples\<close>

text \<open>
  A library in which every call succeeds where it can: the simulator's state counts the
  training calls and the loss falls with it; \<open>urlretrieve\<close> writes a file unless the path
  is a directory; the extraction stores two files, the index file one of them, when the
  path holds a file; the operating system refuses nothing; floats are integers.
\<close>

definition ext0 :: "(string, nat, int, int) ext" where
  "ext0 = \<lparr>present = (\<lambda>p st. Inr p), Simulator = Inr 0, MomentumOptimizer = None,
     sim_loss = (\<lambda>sm i o'. Inr (100 - int sm)), sim_run = (\<lambda>sm n. Inr sm),
     sim_train = (\<lambda>sm i o'. Inr (Suc sm)),
     sim_load_params =
       (\<lambda>sm fs p. if fs (p @ ''.index'') = None then Inl ''no checkpoint'' else Inr 1000),
     lib_urlretrieve =
       (\<lambda>url filename fs.
          if fs filename = Some Directory then (Some ''Is a directory'', fs)
          else (None, fs(filename \<mapsto> File))),
     lib_extractall =
       (\<lambda>path dir fs.
          if fs path = Some File
          then (None, fs(os_path_join dir ''Nengo-Autoencoder.index'' \<mapsto> File,
                         os_path_join dir ''Nengo-Autoencoder.meta'' \<mapsto> File))
          else (Some ''File is not a zip file'', fs)),
     mkdir_refused = (\<lambda>p fs. None), remove_refused = (\<lambda>p fs. None),
     clock = int, f_add = (+), f_sub = (-), f_mul = (*), f_div = (div), f_of_int = id\<rparr>"

text \<open>A kernel that ran something before, in an empty working directory.\<close>

definition s0 :: "(string, nat, int, int) nb" where
  "s0 = \<lparr>files = Map.empty, requests = [], ticks = 0, stdout = [], trained = [],
     raised = [], sim = 0,
     input_dict = None, output_dict = None, losses = [7], start_time = 0, round_time = PInt 0,
     counted = 5, delta = PInt 0, old_delta = PInt 0\<rparr>"

text \<open>The state of that kernel when the repetitions of the training branch start.\<close>

definition at_start :: "(string, nat, int, int) nb" where
  "at_start = snd (enter_simulator ext0 (snd (init_vars ext0 s0)))"

text \<open>
  A dense-layer primitive for the examples: it refuses a layer without units, and
  otherwise appends the number of units to the shape and counts the layer in the graph.
\<close>

definition fc0 :: "(string, int list, nat) dense" where
  "fc0 x units g =
     (if units \<le> 0 then (Inl ''no units'', g) else (Inr (x @ [units]), Suc g))"

text \<open>A decoder after \<open>pre_build\<close> with the shapes of the network.\<close>

definition dec0 :: "int tensor_func" where
  "dec0 = snd (pre_build Decoder [64, 128] [64, 784] :: string exn option \<times> int tensor_func)"

text \<open>Two \<open>LOADING\<close> runs of the cell, one after the other, in the same working directory.\<close>

definition first_run :: "(string, nat, int, int) nb" where
  "first_run = snd (training_cell ext0 True s0)"

definition second_run :: "(string, nat, int, int) nb" where
  "second_run = snd (training_cell ext0 True first_run)"

text \<open>
  The same second run after the index file was taken away, and libraries whose download
  fails and whose extraction fails.
\<close>

definition second_run_without_index :: "(string, nat, int, int) nb" where
  "second_run_without_index =
     snd (training_cell ext0 True
       (first_run\<lparr>files := (files first_run)(param_path @ ''.index'' := None)\<rparr>))"

definition ext_404 :: "(string, nat, int, int) ext" where
  "ext_404 = ext0\<lparr>lib_urlretrieve := (\<lambda>url filename fs. (Some ''HTTP Error 404'', fs))\<rparr>"















section \<open>Properties\<close>

subsection \<open>Blocks, loops and what statements leave unchanged\<close>

declare py_raise_def [simp]


lemma keepsD: "keeps f p \<Longrightarrow> p s = (r, s') \<Longrightarrow> f s' = f s"
  unfolding keeps_def by (metis snd_conv)

lemma keeps_block: "(\<And>p. p \<in> set ps \<Longrightarrow> keeps f p) \<Longrightarrow> keeps f (block ps)"
proof (induction ps)
  case Nil
  show ?case by (simp add: keeps_def)
next
  case (Cons p ps)
  have kp: "keeps f p" and kb: "keeps f (block ps)"
    using Cons by simp_all
  show ?case
    unfolding keeps_def
  proof
    fix s
    obtain r s1 where ps: "p s = (r, s1)" by (cases "p s")
    have f1: "f s1 = f s" using keepsD [OF kp ps] .
    show "f (snd (block (p # ps) s)) = f s"
    proof (cases r)
      case None
      then show ?thesis using ps f1 kb by (simp add: keeps_def)
    next
      case (Some x)
      then show ?thesis using ps f1 by simp
    qed
  qed
qed

lemma keeps_for_each: "(\<And>i. i \<in> set js \<Longrightarrow> keeps f (body i)) \<Longrightarrow> keeps f (for_each js body)"
proof (induction js)
  case Nil
  show ?case by (simp add: keeps_def)
next
  case (Cons j js)
  have kp: "keeps f (body j)" and kb: "keeps f (for_each js body)"
    using Cons by simp_all
  show ?case
    unfolding keeps_def
  proof
    fix s
    obtain r s1 where ps: "body j s = (r, s1)" by (cases "body j s")
    have f1: "f s1 = f s" using keepsD [OF kp ps] .
    show "f (snd (for_each (j # js) body s)) = f s"
    proof (cases r)
      case None
      then show ?thesis using ps f1 kb by (simp add: keeps_def)
    next
      case (Some x)
      then show ?thesis using ps f1 by simp
    qed
  qed
qed

lemma adds_nil: "adds (block []) 0 0 0"
  by (simp add: adds_def)

lemma adds_cons:
  "adds p a b c \<Longrightarrow> adds (block ps) a' b' c' \<Longrightarrow> adds (block (p # ps)) (a + a') (b + b') (c + c')"
  unfolding adds_def
  by (auto split: prod.splits option.splits)

lemma adds_for_each:
  "(\<And>i. i \<in> set js \<Longrightarrow> adds (body i) a b c) \<Longrightarrow>
   adds (for_each js body) (length js * a) (int (length js) * b) (length js * c)"
proof (induction js)
  case Nil
  show ?case by (simp add: adds_def)
next
  case (Cons j js)
  have h: "adds (body j) a b c" and t: "adds (for_each js body) (length js * a) (int (length js) * b) (length js * c)"
    using Cons by simp_all
  show ?case
    using h t unfolding adds_def
    by (auto split: prod.splits option.splits simp: algebra_simps)
qed


lemma adds_cons':
  "adds p a b c \<Longrightarrow> adds (block ps) a' b' c' \<Longrightarrow> A = a + a' \<Longrightarrow> B = b + b' \<Longrightarrow> C = c + c'
   \<Longrightarrow> adds (block (p # ps)) A B C"
  using adds_cons by blast

lemma adds_assign_gen_data: "adds (assign_gen_data X pos) 0 0 0"
  by (simp add: adds_def assign_gen_data_def split: sum.splits prod.splits)

lemma adds_append_loss: "adds (append_loss X) 1 0 0"
  by (auto simp: adds_def append_loss_def split: sum.splits option.splits)

lemma adds_print_losses: "adds print_losses 0 0 0"
  by (simp add: adds_def print_losses_def)

lemma adds_print_delta: "adds (print_delta X) 0 0 0"
  by (auto simp: adds_def print_delta_def split: option.splits)

lemma adds_assign_delta: "adds (assign_delta X) 0 0 0"
  by (auto simp: adds_def assign_delta_def split: option.splits)

lemma adds_update_delta: "adds (update_delta X) 0 0 0"
proof -
  have "adds (block [\<lambda>s. (None, s\<lparr>old_delta := delta s\<rparr>), assign_delta X, print_delta X]) 0 0 0"
    by (rule adds_cons' [where a = 0 and b = 0 and c = 0 and a' = 0 and b' = 0 and c' = 0])
       (simp_all add: adds_def assign_delta_def print_delta_def split: option.splits prod.splits)
  then show ?thesis
    by (simp add: adds_def update_delta_def)
qed

lemma adds_run_sim: "adds (run_sim X) 0 0 0"
  by (auto simp: adds_def run_sim_def split: sum.splits)

lemma adds_incr_counted: "adds incr_counted 0 1 0"
  by (simp add: adds_def incr_counted_def)

lemma adds_train: "adds (train X) 0 0 1"
  by (auto simp: adds_def train_def Let_def split: sum.splits option.splits)

lemma adds_update_round_time: "adds (update_round_time X i) 0 0 0"
  by (auto simp: adds_def update_round_time_def time_time_def Let_def split: option.splits)

lemma adds_restart_timer: "adds (restart_timer X) 0 0 0"
  by (simp add: adds_def restart_timer_def time_time_def)

lemma adds_print_ETA: "adds (print_ETA X e i) 0 0 0"
  by (auto simp: adds_def print_ETA_def split: option.splits)

lemma adds_print_progress:
  "adds (\<lambda>s. (None, s\<lparr>stdout := stdout s @ [Print_progress a b]\<rparr>)) 0 0 0"
  by (simp add: adds_def)

lemma adds_batch_body: "adds (batch_body X e i) 0 0 1"
  unfolding batch_body_def
  by (rule adds_cons' adds_print_progress adds_assign_gen_data adds_train
        adds_update_round_time adds_restart_timer adds_print_ETA adds_nil)+ simp_all

lemma n_iters_859: "n_iters = 859"
  by (simp add: n_iters_def n_examples_def)

lemma adds_batches: "adds (for_each [0..n_iters - 1] (batch_body X e)) 0 0 859"
  using adds_for_each [of "[0..n_iters - 1]" "batch_body X e" 0 0 1, OF adds_batch_body]
  by (simp add: n_iters_859)

lemma adds_repetition_body: "adds (repetition_body X e) 1 1 859"
  unfolding repetition_body_def
  by (rule adds_cons' adds_assign_gen_data adds_append_loss adds_print_losses
        adds_update_delta adds_run_sim adds_incr_counted adds_batches adds_nil)+ simp_all


lemma adds_make_optimizer: "adds (make_optimizer X) 0 0 0"
  by (simp add: adds_def make_optimizer_def split: option.splits)

lemma adds_training_branch: "adds (training_branch X) 15 15 12885"
proof -
  have reps: "adds (for_each [0..repetitions - 1] (repetition_body X)) 15 15 12885"
    using adds_for_each [of "[0..repetitions - 1]" "repetition_body X" 1 1 859,
        OF adds_repetition_body]
    by (simp add: repetitions_def)
  show ?thesis
    unfolding training_branch_def
    by (rule adds_cons' adds_make_optimizer reps adds_nil)+ simp_all
qed

lemma adds_os_mkdir: "adds (os_mkdir X p) 0 0 0"
  by (auto simp: adds_def os_mkdir_def split: option.splits)

lemma adds_ensure_dir: "adds (ensure_dir X) 0 0 0"
  by (auto simp: adds_def ensure_dir_def os_mkdir_def split: if_splits option.splits)

lemma adds_urlretrieve: "adds (urlretrieve X u p) 0 0 0"
  by (auto simp: adds_def urlretrieve_def Let_def split: prod.splits option.splits)

lemma adds_unzip: "adds (unzip X p d) 0 0 0"
  by (auto simp: adds_def unzip_def split: prod.splits option.splits)

lemma adds_os_remove: "adds (os_remove X p) 0 0 0"
  by (auto simp: adds_def os_remove_def split: option.splits fnode.splits)

lemma adds_ensure_params: "adds (ensure_params X) 0 0 0"
proof -
  have "adds (block [urlretrieve X weights_url param_zip_path,
              unzip X param_zip_path param_dir, os_remove X param_zip_path]) 0 0 0"
    by (rule adds_cons' adds_urlretrieve adds_unzip adds_os_remove adds_nil)+ simp_all
  then show ?thesis
    by (simp add: adds_def ensure_params_def)
qed

lemma adds_load_params: "adds (load_params X) 0 0 0"
  by (auto simp: adds_def load_params_def split: sum.splits)

lemma adds_loading_branch: "adds (loading_branch X) 1 0 0"
  unfolding loading_branch_def
  by (rule adds_cons' adds_assign_gen_data adds_append_loss adds_run_sim adds_ensure_dir
        adds_ensure_params adds_load_params adds_nil)+ simp_all

lemma adds_enter_simulator: "adds (enter_simulator X) 0 0 0"
  by (auto simp: adds_def enter_simulator_def split: sum.splits)

lemma adds_final_delta: "adds (final_delta X) 0 0 0"
  by (auto simp: adds_def final_delta_def print_delta_def split: if_splits option.splits)

lemma adds_cell_rest_loading: "adds (block (cell_rest X True)) 2 1 0"
  unfolding cell_rest_def if_True
  by (rule adds_cons' adds_enter_simulator adds_loading_branch adds_append_loss
        adds_print_losses adds_final_delta adds_run_sim adds_incr_counted adds_nil)+ simp_all

lemma adds_cell_rest_training: "adds (block (cell_rest X False)) 16 16 12885"
  unfolding cell_rest_def if_False
  by (rule adds_cons' adds_enter_simulator adds_training_branch adds_append_loss
        adds_print_losses adds_final_delta adds_run_sim adds_incr_counted adds_nil)+ simp_all

lemma init_vars_result:
  "\<exists>s1. init_vars X s = (None, s1) \<and> losses s1 = [] \<and> counted s1 = 0 \<and> trained s1 = trained s
     \<and> files s1 = files s \<and> requests s1 = requests s"
  by (simp add: init_vars_def time_time_def)

lemma training_cell_split:
  "training_cell X L s = (r, s') \<Longrightarrow>
   \<exists>s1. init_vars X s = (None, s1) \<and> block (cell_rest X L) s1 = (r, s')"
  using init_vars_result [of X s]
  by (auto simp: training_cell_def cell_rest_def)

lemma cell_tally:
  assumes "training_cell X L s = (None, s')"
  shows "length (losses s') = (if L then 2 else 16) \<and> counted s' = (if L then 1 else 16)
         \<and> length (trained s') = length (trained s) + (if L then 0 else 12885)"
proof -
  obtain s1 where i: "init_vars X s = (None, s1)" and b: "block (cell_rest X L) s1 = (None, s')"
    using training_cell_split [OF assms] by blast
  have s1: "losses s1 = []" "counted s1 = 0" "trained s1 = trained s"
    using init_vars_result [of X s] i by auto
  show ?thesis
  proof (cases L)
    case True
    then show ?thesis
      using adds_cell_rest_loading [of X] b s1 by (simp add: adds_def)
  next
    case False
    then show ?thesis
      using adds_cell_rest_training [of X] b s1 by (simp add: adds_def)
  qed
qed


lemma block_append:
  "block (ps @ qs) s =
     (case block ps s of (None, s1) \<Rightarrow> block qs s1 | (Some x, s1) \<Rightarrow> (Some x, s1))"
  by (induction ps arbitrary: s) (auto split: prod.splits option.splits)

lemma block_nested: "block (block ps # qs) s = block (ps @ qs) s"
  by (simp add: block_append split: prod.splits option.splits)

lemma net_fs_assign_gen_data: "keeps net_fs (assign_gen_data X pos)"
  by (simp add: keeps_def net_fs_def assign_gen_data_def split: sum.splits prod.splits)

lemma net_fs_append_loss: "keeps net_fs (append_loss X)"
  by (simp add: keeps_def net_fs_def append_loss_def split: sum.splits option.splits)

lemma net_fs_print_losses: "keeps net_fs print_losses"
  by (simp add: keeps_def net_fs_def print_losses_def)

lemma net_fs_print_delta: "keeps net_fs (print_delta X)"
  by (simp add: keeps_def net_fs_def print_delta_def split: option.splits)

lemma net_fs_assign_delta: "keeps net_fs (assign_delta X)"
  by (simp add: keeps_def net_fs_def assign_delta_def split: option.splits)

lemma net_fs_update_delta: "keeps net_fs (update_delta X)"
proof -
  have "keeps net_fs (block [\<lambda>s. (None, s\<lparr>old_delta := delta s\<rparr>), assign_delta X, print_delta X])"
    by (rule keeps_block) (auto simp: net_fs_assign_delta net_fs_print_delta, simp add: keeps_def net_fs_def)
  then show ?thesis
    by (simp add: keeps_def update_delta_def)
qed

lemma net_fs_run_sim: "keeps net_fs (run_sim X)"
  by (simp add: keeps_def net_fs_def run_sim_def split: sum.splits)

lemma net_fs_incr_counted: "keeps net_fs incr_counted"
  by (simp add: keeps_def net_fs_def incr_counted_def)

lemma net_fs_train: "keeps net_fs (train X)"
  by (simp add: keeps_def net_fs_def train_def Let_def split: sum.splits option.splits)

lemma net_fs_update_round_time: "keeps net_fs (update_round_time X i)"
  by (simp add: keeps_def net_fs_def update_round_time_def time_time_def Let_def split: option.splits)

lemma net_fs_restart_timer: "keeps net_fs (restart_timer X)"
  by (simp add: keeps_def net_fs_def restart_timer_def time_time_def)

lemma net_fs_print_ETA: "keeps net_fs (print_ETA X e i)"
  by (simp add: keeps_def net_fs_def print_ETA_def split: option.splits)

lemma net_fs_batch_body: "keeps net_fs (batch_body X e i)"
  unfolding batch_body_def
  by (rule keeps_block)
     (auto simp: net_fs_assign_gen_data net_fs_train net_fs_update_round_time
        net_fs_restart_timer net_fs_print_ETA, simp add: keeps_def net_fs_def)

lemma net_fs_repetition_body: "keeps net_fs (repetition_body X e)"
  unfolding repetition_body_def
  by (rule keeps_block)
     (auto simp: net_fs_assign_gen_data net_fs_append_loss net_fs_print_losses
        net_fs_update_delta net_fs_run_sim net_fs_incr_counted
        intro: keeps_for_each net_fs_batch_body)

lemma net_fs_make_optimizer: "keeps net_fs (make_optimizer X)"
  by (simp add: keeps_def net_fs_def make_optimizer_def split: option.splits)

lemma net_fs_training_branch: "keeps net_fs (training_branch X)"
  unfolding training_branch_def
  by (rule keeps_block)
     (auto simp: net_fs_make_optimizer intro: keeps_for_each net_fs_repetition_body)

lemma net_fs_init_vars: "keeps net_fs (init_vars X)"
  by (simp add: keeps_def net_fs_def init_vars_def time_time_def)

lemma net_fs_enter_simulator: "keeps net_fs (enter_simulator X)"
  by (simp add: keeps_def net_fs_def enter_simulator_def split: sum.splits)

lemma net_fs_final_delta: "keeps net_fs (final_delta X)"
  using net_fs_print_delta [of X] by (simp add: keeps_def final_delta_def)

lemma net_fs_load_params: "keeps net_fs (load_params X)"
  by (simp add: keeps_def net_fs_def load_params_def split: sum.splits)

lemma net_fs_training_run: "keeps net_fs (training_cell X False)"
  unfolding training_cell_def
  by (rule keeps_block)
     (auto simp: net_fs_init_vars net_fs_enter_simulator net_fs_training_branch
        net_fs_append_loss net_fs_print_losses net_fs_final_delta net_fs_run_sim
        net_fs_incr_counted)


subsection \<open>The input function of the routed-sequencing model\<close>

text \<open>
  C9. For every time \<open>t\<close>, \<open>start t\<close> is the string \<open>0.8*START+D\<close> exactly when
  \<open>t < 0.4\<close>, and the string \<open>0\<close> in every other case; so the visual input is withdrawn
  for every \<open>t \<ge> 0.4\<close>.
\<close>

theorem start_threshold:
  "(start t = ''0.8*START+D'' \<longleftrightarrow> py_lt t lit_0_4)
   \<and> (start t = ''0'' \<longleftrightarrow> \<not> py_lt t lit_0_4)
   \<and> (py_ge t lit_0_4 \<longrightarrow> start t = ''0'')"
proof -
  have ge: "py_ge t lit_0_4 \<Longrightarrow> \<not> py_lt t lit_0_4"
    by (cases t) (simp_all add: lit_0_4_def)
  show ?thesis
    using ge by (simp add: start_def)
qed

theorem start_threshold_witness:
  "py_ge (Finite (2 / 5 + 1 / 1000)) lit_0_4 \<and> start (Finite (2 / 5 + 1 / 1000)) = ''0''
   \<and> py_lt (Finite (399 / 1000)) lit_0_4 \<and> start (Finite (399 / 1000)) = ''0.8*START+D''
   \<and> start NaN = ''0''"
proof -
  have a: "py_ge (Finite (2 / 5 + 1 / 1000)) lit_0_4"
    by (simp add: lit_0_4_def)
  have b: "py_lt (Finite (399 / 1000)) lit_0_4"
    by (simp add: lit_0_4_def)
  have c: "\<not> py_lt NaN lit_0_4"
    by simp
  show ?thesis
    using a b c start_threshold [of "Finite (2 / 5 + 1 / 1000)"]
      start_threshold [of "Finite (399 / 1000)"] start_threshold [of NaN]
    by blast
qed

subsection \<open>The training data\<close>

text \<open>
  C8. For every \<open>steps\<close>, \<open>batchsize\<close> and \<open>pos\<close>, the two dictionaries that
  \<open>gen_data(steps, batchsize, pos)\<close> returns carry the same array: the value under the
  input node in the first is the value under the output probe in the second.
\<close>

theorem gen_data_same_array:
  assumes "gen_data present_run n batchsize pos = Inr (in_dict, out_dict)"
  shows "in_dict inp = out_dict output_probe \<and> in_dict inp \<noteq> None"
  using assms by (auto simp: gen_data_def split: sum.splits)

theorem gen_data_same_array_witness:
  "gen_data (present ext0) 10 3 5 = Inr ([inp \<mapsto> [5, 6, 7]], [output_probe \<mapsto> [5, 6, 7]])
   \<and> [inp \<mapsto> [5, 6, 7 :: int]] inp = [output_probe \<mapsto> [5, 6, 7]] output_probe"
proof -
  have u: "[0..(2::int)] = [0, 1, 2]"
    by code_simp
  have g: "gen_data (present ext0) 10 3 5
           = Inr ([inp \<mapsto> [5, 6, 7]], [output_probe \<mapsto> [5, 6, 7]])"
    by (simp add: gen_data_def u ext0_def)
  show ?thesis
    using g gen_data_same_array [OF g] by simp
qed

subsection \<open>The two TensorNode classes\<close>

lemma logged_result:
  "fst (logged fc x units (g, l)) = fst (fc x units g)
   \<and> snd (snd (logged fc x units (g, l))) = l @ [(x, units)]"
  by (simp add: logged_def split: prod.splits)

text \<open>
  C1. \<open>Encoder.__call__(t, x)\<close> is the dense layer of 256 units on \<open>x\<close> followed by the
  dense layer of 128 units (\<open>n_hidden_2\<close>) on its result, and \<open>Decoder.__call__(t, x)\<close>
  is the dense layer of 256 units followed by the dense layer of \<open>self.size_out\<close> units;
  nothing else is computed. A call that returns has invoked the primitive exactly twice:
  on \<open>x\<close> and on the result of the first invocation.
\<close>

theorem encoder_decoder_two_dense_layers:
  fixes fc :: "('e, 'x, 'g) dense"
  shows "Encoder_call fc self t x g = two_dense_layers fc 256 128 x g
   \<and> n_hidden_2 = 128
   \<and> (size_out self = Some units \<longrightarrow>
        Decoder_call fc self t x g = two_dense_layers fc 256 units x g)
   \<and> (fst (Encoder_call (logged fc) self t x (g, [])) = Inr y \<longrightarrow>
        (\<exists>d. snd (snd (Encoder_call (logged fc) self t x (g, []))) = [(x, 256), (d, 128)]))
   \<and> (fst (Decoder_call (logged fc) self t x (g, [])) = Inr y \<longrightarrow>
        (\<exists>d units. size_out self = Some units
           \<and> snd (snd (Decoder_call (logged fc) self t x (g, []))) = [(x, 256), (d, units)]))"
proof -
  have 1: "Encoder_call fc self t x g = two_dense_layers fc 256 128 x g"
    by (simp add: Encoder_call_def two_dense_layers_def n_hidden_1_def n_hidden_2_def
          split: prod.splits sum.splits)
  have 2: "size_out self = Some units \<longrightarrow>
        Decoder_call fc self t x g = two_dense_layers fc 256 units x g"
    by (simp add: Decoder_call_def two_dense_layers_def n_hidden_1_def
          split: prod.splits sum.splits)
  have 3: "fst (Encoder_call (logged fc) self t x (g, [])) = Inr y \<longrightarrow>
        (\<exists>d. snd (snd (Encoder_call (logged fc) self t x (g, []))) = [(x, 256), (d, 128)])"
    by (auto simp: Encoder_call_def logged_def n_hidden_1_def n_hidden_2_def
          split: prod.splits sum.splits)
  have 4: "fst (Decoder_call (logged fc) self t x (g, [])) = Inr y \<longrightarrow>
        (\<exists>d units. size_out self = Some units
           \<and> snd (snd (Decoder_call (logged fc) self t x (g, []))) = [(x, 256), (d, units)])"
    by (auto simp: Decoder_call_def logged_def n_hidden_1_def
          split: prod.splits sum.splits option.splits)
  show ?thesis
    using 1 2 3 4 by (simp add: n_hidden_2_def)
qed

theorem encoder_decoder_two_dense_layers_witness:
  "size_out dec0 = Some 784
   \<and> Decoder_call fc0 dec0 (0 :: int) [784] 0 = two_dense_layers fc0 256 784 [784] 0
   \<and> Decoder_call fc0 dec0 (0 :: int) [784] 0 = (Inr [784, 256, 784], 2)
   \<and> Encoder_call fc0 Encoder (0 :: int) [784] 0 = (Inr [784, 256, 128], 2)
   \<and> fst (Encoder_call (logged fc0) Encoder (0 :: int) [784] (0, [])) = Inr [784, 256, 128]
   \<and> snd (snd (Encoder_call (logged fc0) Encoder (0 :: int) [784] (0, [])))
        = [([784], 256), ([784, 256], 128)]
   \<and> fst (Decoder_call (logged fc0) dec0 (0 :: int) [784] (0, [])) = Inr [784, 256, 784]
   \<and> snd (snd (Decoder_call (logged fc0) dec0 (0 :: int) [784] (0, [])))
        = [([784], 256), ([784, 256], 784)]"
proof -
  have a: "size_out dec0 = Some 784"
    by (simp add: dec0_def pre_build_def Decoder_def getitem_def)
  have b: "two_dense_layers fc0 256 784 [784] 0 = (Inr [784, 256, 784], 2)"
    by (simp add: two_dense_layers_def fc0_def)
  have c: "two_dense_layers fc0 256 128 [784] 0 = (Inr [784, 256, 128], 2)"
    by (simp add: two_dense_layers_def fc0_def)
  have d: "fst (Encoder_call (logged fc0) Encoder (0 :: int) [784] (0, [])) = Inr [784, 256, 128]"
    by (simp add: Encoder_call_def logged_def fc0_def n_hidden_1_def n_hidden_2_def)
  have e: "snd (snd (Encoder_call (logged fc0) Encoder (0 :: int) [784] (0, [])))
        = [([784], 256), ([784, 256], 128)]"
    by (simp add: Encoder_call_def logged_def fc0_def n_hidden_1_def n_hidden_2_def)
  have f: "fst (Decoder_call (logged fc0) dec0 (0 :: int) [784] (0, [])) = Inr [784, 256, 784]"
    by (simp add: Decoder_call_def logged_def fc0_def n_hidden_1_def a)
  have g: "snd (snd (Decoder_call (logged fc0) dec0 (0 :: int) [784] (0, [])))
        = [([784], 256), ([784, 256], 784)]"
    by (simp add: Decoder_call_def logged_def fc0_def n_hidden_1_def a)
  show ?thesis
    using a b c d e f g
      encoder_decoder_two_dense_layers [of fc0 dec0 "0 :: int" "[784]" 0 784 "[784, 256, 784]"]
      encoder_decoder_two_dense_layers [of fc0 Encoder "0 :: int" "[784]" 0 784 "[784, 256, 128]"]
    by simp
qed

subsection \<open>Triples\<close>

lemma tripleI:
  assumes "\<And>s r s'. P s \<Longrightarrow> p s = (r, s') \<Longrightarrow> (r = None \<longrightarrow> Q s') \<and> (r \<noteq> None \<longrightarrow> E s')"
  shows "triple P p Q E"
  unfolding triple_def
proof (intro allI impI)
  fix s
  assume "P s"
  then show "if fst (p s) = None then Q (snd (p s)) else E (snd (p s))"
    using assms [of s "fst (p s)" "snd (p s)"] by simp
qed

lemma tripleD:
  "triple P p Q E \<Longrightarrow> P s \<Longrightarrow> p s = (r, s') \<Longrightarrow> (r = None \<longrightarrow> Q s') \<and> (r \<noteq> None \<longrightarrow> E s')"
  unfolding triple_def by (metis fst_conv snd_conv)

lemma triple_nil: "(\<And>s. P s \<Longrightarrow> Q s) \<Longrightarrow> triple P (block []) Q E"
  by (simp add: triple_def)

lemma triple_cons:
  assumes p: "triple P p Q E" and ps: "triple Q (block ps) R E"
  shows "triple P (block (p # ps)) R E"
proof (rule tripleI)
  fix s r s'
  assume P: "P s" and run: "block (p # ps) s = (r, s')"
  obtain r1 s1 where 1: "p s = (r1, s1)" by (cases "p s")
  show "(r = None \<longrightarrow> R s') \<and> (r \<noteq> None \<longrightarrow> E s')"
  proof (cases r1)
    case None
    then have "block ps s1 = (r, s')" and "Q s1"
      using run 1 tripleD [OF p P 1] by simp_all
    then show ?thesis
      using tripleD [OF ps] by blast
  next
    case (Some x)
    then have "r = Some x" "s' = s1"
      using run 1 by simp_all
    then show ?thesis
      using tripleD [OF p P 1] Some by simp
  qed
qed

lemma triple_for_each:
  assumes "\<And>i. i \<in> set js \<Longrightarrow> triple I (body i) I E"
  shows "triple I (for_each js body) I E"
  using assms
proof (induction js)
  case Nil
  show ?case by (simp add: triple_def)
next
  case (Cons j js)
  have h: "triple I (body j) I E" and t: "triple I (for_each js body) I E"
    using Cons by simp_all
  show ?case
  proof (rule tripleI)
    fix s r s'
    assume P: "I s" and run: "for_each (j # js) body s = (r, s')"
    obtain r1 s1 where 1: "body j s = (r1, s1)" by (cases "body j s")
    show "(r = None \<longrightarrow> I s') \<and> (r \<noteq> None \<longrightarrow> E s')"
    proof (cases r1)
      case None
      then have "for_each js body s1 = (r, s')" and "I s1"
        using run 1 tripleD [OF h P 1] by simp_all
      then show ?thesis
        using tripleD [OF t] by blast
    next
      case (Some x)
      then have "r = Some x" "s' = s1"
        using run 1 by simp_all
      then show ?thesis
        using tripleD [OF h P 1] Some by simp
    qed
  qed
qed

lemma triple_weaken:
  assumes "triple P p Q E" "\<And>s. P' s \<Longrightarrow> P s" "\<And>s. Q s \<Longrightarrow> Q' s" "\<And>s. E s \<Longrightarrow> E' s"
  shows "triple P' p Q' E'"
  using assms unfolding triple_def by (metis (full_types))

lemma triple_keeps:
  assumes "keeps f p"
  shows "triple (\<lambda>s. R (f s)) p (\<lambda>s. R (f s)) (\<lambda>s. R (f s))"
proof (rule tripleI)
  fix s r s'
  assume R: "R (f s)" and ps: "p s = (r, s')"
  have "f s' = f s" using keepsD [OF assms ps] .
  then show "(r = None \<longrightarrow> R (f s')) \<and> (r \<noteq> None \<longrightarrow> R (f s'))"
    using R by simp
qed

subsection \<open>What the training calls are given\<close>

lemma trained_assign_gen_data: "keeps trained (assign_gen_data X pos)"
  by (simp add: keeps_def assign_gen_data_def split: sum.splits prod.splits)

lemma trained_append_loss: "keeps trained (append_loss X)"
  by (simp add: keeps_def append_loss_def split: sum.splits option.splits)

lemma trained_print_losses: "keeps trained print_losses"
  by (simp add: keeps_def print_losses_def)

lemma trained_print_delta: "keeps trained (print_delta X)"
  by (simp add: keeps_def print_delta_def split: option.splits)

lemma trained_assign_delta: "keeps trained (assign_delta X)"
  by (simp add: keeps_def assign_delta_def split: option.splits)

lemma trained_update_delta: "keeps trained (update_delta X)"
proof -
  have "keeps trained (block [\<lambda>s. (None, s\<lparr>old_delta := delta s\<rparr>), assign_delta X, print_delta X])"
    by (rule keeps_block) (auto simp: trained_assign_delta trained_print_delta, simp add: keeps_def)
  then show ?thesis
    by (simp add: keeps_def update_delta_def)
qed

lemma trained_run_sim: "keeps trained (run_sim X)"
  by (simp add: keeps_def run_sim_def split: sum.splits)

lemma trained_incr_counted: "keeps trained incr_counted"
  by (simp add: keeps_def incr_counted_def)

lemma trained_update_round_time: "keeps trained (update_round_time X i)"
  by (simp add: keeps_def update_round_time_def time_time_def Let_def split: option.splits)

lemma trained_restart_timer: "keeps trained (restart_timer X)"
  by (simp add: keeps_def restart_timer_def time_time_def)

lemma trained_print_ETA: "keeps trained (print_ETA X e i)"
  by (simp add: keeps_def print_ETA_def split: option.splits)

lemma trained_make_optimizer: "keeps trained (make_optimizer X)"
  by (simp add: keeps_def make_optimizer_def split: option.splits)

lemma trained_init_vars: "keeps trained (init_vars X)"
  by (simp add: keeps_def init_vars_def time_time_def)

lemma trained_enter_simulator: "keeps trained (enter_simulator X)"
  by (simp add: keeps_def enter_simulator_def split: sum.splits)

lemma trained_final_delta: "keeps trained (final_delta X)"
  using trained_print_delta [of X] by (simp add: keeps_def final_delta_def)

lemma trained_load_params: "keeps trained (load_params X)"
  by (simp add: keeps_def load_params_def split: sum.splits)

lemma trained_ensure_dir: "keeps trained (ensure_dir X)"
  by (simp add: keeps_def ensure_dir_def os_mkdir_def split: option.splits)

lemma trained_ensure_params: "keeps trained (ensure_params X)"
proof -
  have "keeps trained (block [urlretrieve X weights_url param_zip_path,
              unzip X param_zip_path param_dir, os_remove X param_zip_path])"
    by (rule keeps_block)
       (auto simp: keeps_def urlretrieve_def unzip_def os_remove_def Let_def
          split: prod.splits option.splits fnode.splits)
  then show ?thesis
    by (simp add: keeps_def ensure_params_def)
qed

lemma trained_loading_branch: "keeps trained (loading_branch X)"
  unfolding loading_branch_def
  by (rule keeps_block)
     (auto simp: trained_assign_gen_data trained_append_loss trained_run_sim
        trained_ensure_dir trained_ensure_params trained_load_params)

lemma good_of_keeps:
  assumes "keeps trained p"
  shows "triple trained_on_input p trained_on_input trained_on_input"
  using triple_keeps [OF assms, of "list_all same_data"]
  by (simp add: triple_def trained_on_input_def)

lemma gen_data_pair:
  "gen_data present_run n batchsize pos = Inr (i, o') \<Longrightarrow> same_data (i, o')"
  by (auto simp: gen_data_def same_data_def split: sum.splits)

lemma good_assign_gen_data:
  "triple trained_on_input (assign_gen_data X pos)
     (\<lambda>s. trained_on_input s \<and> paired s) trained_on_input"
proof (rule tripleI)
  fix s r s'
  assume G: "trained_on_input s" and run: "assign_gen_data X pos s = (r, s')"
  show "(r = None \<longrightarrow> trained_on_input s' \<and> paired s') \<and> (r \<noteq> None \<longrightarrow> trained_on_input s')"
  proof (cases "gen_data (present X) steps n_examples pos")
    case (Inl x)
    then show ?thesis
      using run G by (auto simp: assign_gen_data_def trained_on_input_def)
  next
    case (Inr d)
    obtain i o' where d: "d = (i, o')" by (cases d)
    have "same_data (i, o')"
      using gen_data_pair Inr d by blast
    then show ?thesis
      using run G Inr d by (auto simp: assign_gen_data_def trained_on_input_def paired_def)
  qed
qed

lemma good_train:
  "triple (\<lambda>s. trained_on_input s \<and> paired s) (train X) trained_on_input trained_on_input"
proof (rule tripleI)
  fix s r s'
  assume G: "trained_on_input s \<and> paired s" and run: "train X s = (r, s')"
  then obtain i o' where b: "input_dict s = Some i" "output_dict s = Some o'" "same_data (i, o')"
    by (auto simp: paired_def split: option.splits)
  have "trained s' = trained s @ [(i, o')]"
    using run b by (auto simp: train_def Let_def split: sum.splits)
  then have "trained_on_input s'"
    using G b by (simp add: trained_on_input_def)
  then show "(r = None \<longrightarrow> trained_on_input s') \<and> (r \<noteq> None \<longrightarrow> trained_on_input s')"
    by simp
qed

lemma good_batch_body: "triple trained_on_input (batch_body X e i) trained_on_input trained_on_input"
  unfolding batch_body_def
proof (intro triple_cons triple_nil)
  show "triple trained_on_input (\<lambda>s. (None, s\<lparr>stdout := stdout s @ [Print_progress (i + 1) n_iters]\<rparr>))
     trained_on_input trained_on_input"
    by (rule good_of_keeps) (simp add: keeps_def)
  show "triple trained_on_input (assign_gen_data X (n_examples * i))
     (\<lambda>s. trained_on_input s \<and> paired s) trained_on_input"
    by (rule good_assign_gen_data)
  show "triple (\<lambda>s. trained_on_input s \<and> paired s) (train X) trained_on_input trained_on_input"
    by (rule good_train)
  show "triple trained_on_input (update_round_time X i) trained_on_input trained_on_input"
    by (rule good_of_keeps [OF trained_update_round_time])
  show "triple trained_on_input (restart_timer X) trained_on_input trained_on_input"
    by (rule good_of_keeps [OF trained_restart_timer])
  show "triple trained_on_input (print_ETA X e i) trained_on_input trained_on_input"
    by (rule good_of_keeps [OF trained_print_ETA])
qed simp

lemma good_repetition_body:
  "triple trained_on_input (repetition_body X e) trained_on_input trained_on_input"
  unfolding repetition_body_def
  by (rule triple_cons triple_nil triple_for_each good_batch_body
        good_of_keeps [OF trained_assign_gen_data] good_of_keeps [OF trained_append_loss]
        good_of_keeps [OF trained_print_losses] good_of_keeps [OF trained_update_delta]
        good_of_keeps [OF trained_run_sim] good_of_keeps [OF trained_incr_counted]
      | assumption)+

lemma good_training_branch:
  "triple trained_on_input (training_branch X) trained_on_input trained_on_input"
  unfolding training_branch_def
  by (rule triple_cons triple_nil triple_for_each good_repetition_body
        good_of_keeps [OF trained_make_optimizer]
      | assumption)+

lemma good_training_cell:
  "triple trained_on_input (training_cell X LOADING) trained_on_input trained_on_input"
proof -
  have branch: "triple trained_on_input (if LOADING then loading_branch X else training_branch X)
      trained_on_input trained_on_input"
    using good_training_branch [of X] good_of_keeps [OF trained_loading_branch, of X] by simp
  show ?thesis
    unfolding training_cell_def
    by (rule triple_cons triple_nil branch
        good_of_keeps [OF trained_init_vars] good_of_keeps [OF trained_enter_simulator]
        good_of_keeps [OF trained_append_loss] good_of_keeps [OF trained_print_losses]
        good_of_keeps [OF trained_final_delta] good_of_keeps [OF trained_run_sim]
        good_of_keeps [OF trained_incr_counted]
      | assumption)+
qed

subsection \<open>A reliable library completes the training\<close>

lemma gen_rows_reliable:
  "reliable X \<Longrightarrow> \<exists>rows. gen_rows (present X) n pos ks acc = Inr rows"
proof (induction ks arbitrary: acc)
  case Nil
  show ?case by simp
next
  case (Cons k ks)
  have "\<not> isl (present X (pos + k) n)"
    using Cons.prems by (simp add: reliable_def)
  then obtain row where "present X (pos + k) n = Inr row"
    by (cases "present X (pos + k) n") simp_all
  then show ?case
    using Cons by simp
qed

lemma assign_gen_data_reliable:
  assumes "reliable X"
  shows "\<exists>i o'. assign_gen_data X pos s = (None, s\<lparr>input_dict := Some i, output_dict := Some o'\<rparr>)"
proof -
  obtain rows where "gen_rows (present X) steps pos [0..n_examples - 1] [] = Inr rows"
    using gen_rows_reliable [OF assms] by blast
  then have "assign_gen_data X pos s =
      (None, s\<lparr>input_dict := Some [inp \<mapsto> rows], output_dict := Some [output_probe \<mapsto> rows]\<rparr>)"
    by (simp add: assign_gen_data_def gen_data_def)
  then show ?thesis
    by blast
qed

lemma fin_assign_gen_data:
  assumes "reliable X"
  shows "triple (tallied k) (assign_gen_data X pos) (\<lambda>s. tallied k s \<and> bound s) nothing"
proof (rule tripleI)
  fix s r s'
  assume "tallied k s" and "assign_gen_data X pos s = (r, s')"
  then show "(r = None \<longrightarrow> tallied k s' \<and> bound s') \<and> (r \<noteq> None \<longrightarrow> nothing s')"
    using assign_gen_data_reliable [OF assms, of pos s]
    by (auto simp: tallied_def bound_def)
qed

lemma fin_append_loss:
  assumes "reliable X"
  shows "triple (\<lambda>s. tallied 0 s \<and> bound s) (append_loss X) (\<lambda>s. tallied 1 s \<and> bound s) nothing"
proof (rule tripleI)
  fix s r s'
  assume pre: "tallied 0 s \<and> bound s" and run: "append_loss X s = (r, s')"
  then obtain i o' where b: "input_dict s = Some i" "output_dict s = Some o'"
    by (auto simp: bound_def)
  have "\<not> isl (sim_loss X (sim s) i o')"
    using assms by (simp add: reliable_def)
  then obtain l where "sim_loss X (sim s) i o' = Inr l"
    by (cases "sim_loss X (sim s) i o'") simp_all
  then show "(r = None \<longrightarrow> tallied 1 s' \<and> bound s') \<and> (r \<noteq> None \<longrightarrow> nothing s')"
    using pre run b by (auto simp: append_loss_def tallied_def bound_def)
qed

lemma fin_print_losses:
  "triple (\<lambda>s. tallied k s \<and> bound s) print_losses (\<lambda>s. tallied k s \<and> bound s) nothing"
  by (rule tripleI) (auto simp: print_losses_def tallied_def bound_def)

lemma getitem_in_range:
  "0 \<le> i \<Longrightarrow> i < int (length xs) \<Longrightarrow> getitem xs i = Some (xs ! nat i)"
  by (simp add: getitem_def)

lemma fin_print_delta:
  "triple (\<lambda>s. tallied 1 s \<and> bound s \<and> 0 < counted s) (print_delta X)
     (\<lambda>s. tallied 1 s \<and> bound s) nothing"
proof (rule tripleI)
  fix s r s'
  assume pre: "tallied 1 s \<and> bound s \<and> 0 < counted s" and run: "print_delta X s = (r, s')"
  have a: "getitem (losses s) (counted s) = Some (losses s ! nat (counted s))"
    using pre by (intro getitem_in_range) (simp_all add: tallied_def)
  have b: "getitem (losses s) (counted s - 1) = Some (losses s ! nat (counted s - 1))"
    using pre by (intro getitem_in_range) (simp_all add: tallied_def)
  show "(r = None \<longrightarrow> tallied 1 s' \<and> bound s') \<and> (r \<noteq> None \<longrightarrow> nothing s')"
    using pre run a b by (auto simp: print_delta_def tallied_def bound_def)
qed

lemma fin_update_delta:
  "triple (\<lambda>s. tallied 1 s \<and> bound s) (update_delta X) (\<lambda>s. tallied 1 s \<and> bound s) nothing"
proof (rule tripleI)
  fix s r s'
  assume pre: "tallied 1 s \<and> bound s" and run: "update_delta X s = (r, s')"
  show "(r = None \<longrightarrow> tallied 1 s' \<and> bound s') \<and> (r \<noteq> None \<longrightarrow> nothing s')"
  proof (cases "0 < counted s")
    case False
    then show ?thesis
      using pre run by (auto simp: update_delta_def)
  next
    case True
    let ?s1 = "s\<lparr>old_delta := delta s\<rparr>"
    have a: "getitem (losses s) (counted s) = Some (losses s ! nat (counted s))"
      using pre True by (intro getitem_in_range) (simp_all add: tallied_def)
    have b: "getitem (losses s) (counted s - 1) = Some (losses s ! nat (counted s - 1))"
      using pre True by (intro getitem_in_range) (simp_all add: tallied_def)
    show ?thesis
      using pre run True a b
      by (auto simp: update_delta_def assign_delta_def print_delta_def tallied_def bound_def)
  qed
qed

lemma fin_final_delta:
  "triple (\<lambda>s. tallied 1 s \<and> bound s) (final_delta X) (\<lambda>s. tallied 1 s \<and> bound s) nothing"
proof (rule tripleI)
  fix s r s'
  assume pre: "tallied 1 s \<and> bound s" and run: "final_delta X s = (r, s')"
  show "(r = None \<longrightarrow> tallied 1 s' \<and> bound s') \<and> (r \<noteq> None \<longrightarrow> nothing s')"
  proof (cases "0 < counted s")
    case False
    then show ?thesis
      using pre run by (auto simp: final_delta_def)
  next
    case True
    then have "print_delta X s = (r, s')"
      using run by (simp add: final_delta_def)
    then show ?thesis
      using tripleD [OF fin_print_delta, of s X r s'] pre True by simp
  qed
qed

lemma fin_run_sim:
  assumes "reliable X"
  shows "triple (\<lambda>s. tallied k s \<and> bound s) (run_sim X) (\<lambda>s. tallied k s \<and> bound s) nothing"
proof (rule tripleI)
  fix s r s'
  assume pre: "tallied k s \<and> bound s" and run: "run_sim X s = (r, s')"
  have "\<not> isl (sim_run X (sim s) steps)"
    using assms by (simp add: reliable_def)
  then obtain sm where "sim_run X (sim s) steps = Inr sm"
    by (cases "sim_run X (sim s) steps") simp_all
  then show "(r = None \<longrightarrow> tallied k s' \<and> bound s') \<and> (r \<noteq> None \<longrightarrow> nothing s')"
    using pre run by (auto simp: run_sim_def tallied_def bound_def)
qed

lemma fin_incr_counted:
  "triple (\<lambda>s. tallied 1 s \<and> bound s) incr_counted (\<lambda>s. tallied 0 s \<and> bound s) nothing"
  by (rule tripleI) (auto simp: incr_counted_def tallied_def bound_def)

lemma fin_train:
  assumes "reliable X"
  shows "triple (\<lambda>s. tallied k s \<and> bound s) (train X) (\<lambda>s. tallied k s \<and> bound s) nothing"
proof (rule tripleI)
  fix s r s'
  assume pre: "tallied k s \<and> bound s" and run: "train X s = (r, s')"
  then obtain i o' where b: "input_dict s = Some i" "output_dict s = Some o'"
    by (auto simp: bound_def)
  have "\<not> isl (sim_train X (sim s) i o')"
    using assms by (simp add: reliable_def)
  then obtain sm where "sim_train X (sim s) i o' = Inr sm"
    by (cases "sim_train X (sim s) i o'") simp_all
  then show "(r = None \<longrightarrow> tallied k s' \<and> bound s') \<and> (r \<noteq> None \<longrightarrow> nothing s')"
    using pre run b by (auto simp: train_def tallied_def bound_def)
qed

lemma fin_update_round_time:
  assumes "0 \<le> i"
  shows "triple (\<lambda>s. tallied k s \<and> bound s) (update_round_time X i)
           (\<lambda>s. tallied k s \<and> bound s) nothing"
proof (rule tripleI)
  fix s r s'
  assume pre: "tallied k s \<and> bound s" and run: "update_round_time X i s = (r, s')"
  have "i + 1 \<noteq> 0" using assms by simp
  then show "(r = None \<longrightarrow> tallied k s' \<and> bound s') \<and> (r \<noteq> None \<longrightarrow> nothing s')"
    using pre run
    by (auto simp: update_round_time_def time_time_def truediv_int_def Let_def tallied_def bound_def)
qed

lemma fin_restart_timer:
  "triple (\<lambda>s. tallied k s \<and> bound s) (restart_timer X) (\<lambda>s. tallied k s \<and> bound s) nothing"
  by (rule tripleI) (auto simp: restart_timer_def time_time_def tallied_def bound_def)

lemma fin_print_ETA:
  "triple (\<lambda>s. tallied k s \<and> bound s) (print_ETA X e i) (\<lambda>s. tallied k s \<and> bound s) nothing"
  by (rule tripleI) (auto simp: print_ETA_def truediv_int_def tallied_def bound_def)

lemma fin_print_progress:
  "triple (\<lambda>s. tallied k s \<and> bound s)
     (\<lambda>s. (None, s\<lparr>stdout := stdout s @ [Print_progress a b]\<rparr>))
     (\<lambda>s. tallied k s \<and> bound s) nothing"
  by (rule tripleI) (auto simp: tallied_def bound_def)

lemma fin_assign_gen_data_bound:
  assumes "reliable X"
  shows "triple (\<lambda>s. tallied k s \<and> bound s) (assign_gen_data X pos)
           (\<lambda>s. tallied k s \<and> bound s) nothing"
  by (rule triple_weaken [OF fin_assign_gen_data [OF assms, of k pos]]) simp_all

lemma fin_batch_body:
  assumes "reliable X" "0 \<le> i"
  shows "triple (\<lambda>s. tallied 0 s \<and> bound s) (batch_body X e i)
           (\<lambda>s. tallied 0 s \<and> bound s) nothing"
  unfolding batch_body_def
  by (rule triple_cons triple_nil fin_print_progress fin_assign_gen_data_bound [OF assms(1)]
        fin_train [OF assms(1)] fin_update_round_time [OF assms(2)] fin_restart_timer
        fin_print_ETA
      | assumption)+

lemma fin_batches:
  assumes "reliable X"
  shows "triple (\<lambda>s. tallied 0 s \<and> bound s) (for_each [0..n_iters - 1] (batch_body X e))
           (\<lambda>s. tallied 0 s \<and> bound s) nothing"
  by (rule triple_for_each) (simp add: fin_batch_body [OF assms])

lemma fin_repetition_body:
  assumes "reliable X"
  shows "triple (tallied 0) (repetition_body X e) (\<lambda>s. tallied 0 s \<and> bound s) nothing"
  unfolding repetition_body_def
  by (rule triple_cons triple_nil fin_assign_gen_data [OF assms] fin_append_loss [OF assms]
        fin_print_losses fin_update_delta fin_run_sim [OF assms] fin_incr_counted
        fin_batches [OF assms]
      | assumption)+

lemma fin_repetitions:
  assumes "reliable X"
  shows "triple (tallied 0) (for_each es (repetition_body X)) (tallied 0) nothing"
proof (rule triple_for_each)
  fix e
  show "triple (tallied 0) (repetition_body X e) (tallied 0) nothing"
    by (rule triple_weaken [OF fin_repetition_body [OF assms]]) simp_all
qed

lemma fin_repetitions_bound:
  assumes "reliable X"
  shows "triple (tallied 0) (for_each (e # es) (repetition_body X))
           (\<lambda>s. tallied 0 s \<and> bound s) nothing"
proof (rule tripleI)
  fix s r s'
  assume pre: "tallied 0 s" and run: "for_each (e # es) (repetition_body X) s = (r, s')"
  obtain r1 s1 where 1: "repetition_body X e s = (r1, s1)"
    by (cases "repetition_body X e s")
  have r1: "r1 = None" and s1: "tallied 0 s1 \<and> bound s1"
    using tripleD [OF fin_repetition_body [OF assms] pre 1] by (auto simp: nothing_def)
  have rest: "triple (\<lambda>s. tallied 0 s \<and> bound s) (for_each es (repetition_body X))
      (\<lambda>s. tallied 0 s \<and> bound s) nothing"
  proof (rule triple_for_each)
    fix e'
    show "triple (\<lambda>s. tallied 0 s \<and> bound s) (repetition_body X e')
        (\<lambda>s. tallied 0 s \<and> bound s) nothing"
      by (rule triple_weaken [OF fin_repetition_body [OF assms]]) simp_all
  qed
  have "for_each es (repetition_body X) s1 = (r, s')"
    using run 1 r1 by simp
  then show "(r = None \<longrightarrow> tallied 0 s' \<and> bound s') \<and> (r \<noteq> None \<longrightarrow> nothing s')"
    using tripleD [OF rest s1] by blast
qed

lemma fin_training_branch:
  assumes "reliable X"
  shows "triple (tallied 0) (training_branch X) (\<lambda>s. tallied 0 s \<and> bound s) nothing"
proof -
  have u: "[0..repetitions - 1] = 0 # [1..repetitions - 1]"
    by (simp add: repetitions_def upto_rec1)
  have o: "triple (tallied 0) (make_optimizer X) (tallied 0) nothing"
    using assms by (intro tripleI) (auto simp: make_optimizer_def reliable_def)
  show ?thesis
    unfolding training_branch_def u
    by (rule triple_cons triple_nil o fin_repetitions_bound [OF assms] | assumption)+
qed

lemma fin_training_cell:
  assumes "reliable X"
  shows "triple (\<lambda>s. True) (training_cell X False) (\<lambda>s. tallied 0 s \<and> bound s) nothing"
proof -
  have i: "triple (\<lambda>s. True) (init_vars X) (tallied 0) nothing"
    by (rule tripleI) (auto simp: init_vars_def time_time_def tallied_def)
  have "\<not> isl (Simulator X)"
    using assms by (simp add: reliable_def)
  then obtain sm where "Simulator X = Inr sm"
    by (cases "Simulator X") simp_all
  then have e: "triple (tallied 0) (enter_simulator X) (tallied 0) nothing"
    by (intro tripleI) (auto simp: enter_simulator_def tallied_def)
  show ?thesis
    unfolding training_cell_def if_False
    by (rule triple_cons triple_nil i e fin_training_branch [OF assms] fin_append_loss [OF assms]
          fin_print_losses fin_final_delta fin_run_sim [OF assms] fin_incr_counted
        | assumption)+
qed

lemma reliable_ext0: "reliable ext0"
  by (simp add: reliable_def ext0_def)

lemma training_run_completes:
  assumes "reliable X"
  shows "fst (training_cell X False s) = None"
  using tripleD [OF fin_training_cell [OF assms], of s "fst (training_cell X False s)"
      "snd (training_cell X False s)"]
  by (auto simp: nothing_def)

lemma repetitions_complete:
  assumes "reliable X" "tallied 0 s"
  shows "fst (for_each es (repetition_body X) s) = None"
  using tripleD [OF fin_repetitions [OF assms(1)] assms(2), of es
      "fst (for_each es (repetition_body X) s)" "snd (for_each es (repetition_body X) s)"]
  by (auto simp: nothing_def)

subsection \<open>The losses and the counter of the training cell\<close>

text \<open>
  C10. When the training cell completes, \<open>losses\<close> holds 16 values if \<open>LOADING\<close> is
  False and 2 values if it is True. The counter \<open>counted\<close> is 16 in the first case, the
  length of \<open>losses\<close>; in the second case it is 1, not the length of \<open>losses\<close>: the
  \<open>LOADING\<close> branch appends a loss and runs the simulator as a repetition does, and
  does not count it.
\<close>

theorem losses_and_counted_after_cell:
  assumes "training_cell X LOADING s = (None, s')"
  shows "length (losses s') = (if LOADING then 2 else 16)
         \<and> counted s' = (if LOADING then 1 else 16)"
  using cell_tally [OF assms] by simp

theorem losses_and_counted_after_cell_witness:
  "training_cell ext0 True s0 = (None, first_run)
   \<and> losses first_run = [100, - 900]
   \<and> length (losses first_run) = 2 \<and> counted first_run = 1
   \<and> counted first_run \<noteq> int (length (losses first_run))
   \<and> training_cell ext0 False s0 = (None, snd (training_cell ext0 False s0))
   \<and> length (losses (snd (training_cell ext0 False s0))) = 16
   \<and> counted (snd (training_cell ext0 False s0)) = 16"
proof -
  have run0: "training_cell ext0 False s0 = (None, snd (training_cell ext0 False s0))"
    using training_run_completes [OF reliable_ext0, of s0] by (simp add: prod_eq_iff)
  have a: "fst (training_cell ext0 True s0) = None"
    by code_simp
  have run1: "training_cell ext0 True s0 = (None, first_run)"
    using a by (simp add: first_run_def prod_eq_iff)
  have l: "losses first_run = [100, - 900]"
    by code_simp
  show ?thesis
    using run1 l run0 losses_and_counted_after_cell [OF run1]
      losses_and_counted_after_cell [OF run0]
    by simp
qed

subsection \<open>The autoencoder is trained to reconstruct its input\<close>

text \<open>
  C5. The autoencoder is trained to reconstruct its input through a compressed
  intermediate representation: every call of \<open>sim.train\<close> the training cell makes is given,
  as the target for the output probe, the array it is given as the input of the input
  node; and the encoder's output, which is the decoder's input, has \<open>n_hidden_2 = 128\<close>
  dimensions, strictly fewer than the \<open>n_input = 784\<close> dimensions of the encoder's input
  and the decoder's output.
\<close>

theorem autoencoder_reconstructs_input:
  assumes "training_cell X LOADING s = (r, s')" and "list_all same_data (trained s)"
  shows "list_all same_data (trained s')
         \<and> tn_size_in tf_encode = n_input \<and> tn_size_out tf_encode = n_hidden_2
         \<and> tn_size_in tf_decode = n_hidden_2 \<and> tn_size_out tf_decode = n_input
         \<and> n_hidden_2 = 128 \<and> n_input = 784 \<and> n_hidden_2 < n_input"
proof -
  have "trained_on_input s"
    using assms(2) by (simp add: trained_on_input_def)
  then have "trained_on_input s'"
    using tripleD [OF good_training_cell _ assms(1)] by (cases r) simp_all
  then show ?thesis
    by (simp add: trained_on_input_def tf_encode_def tf_decode_def n_hidden_2_def n_input_def)
qed

theorem autoencoder_reconstructs_input_witness:
  "training_cell ext0 False s0 = (None, snd (training_cell ext0 False s0))
   \<and> list_all same_data (trained s0)
   \<and> length (trained (snd (training_cell ext0 False s0))) = 12885
   \<and> list_all same_data (trained (snd (training_cell ext0 False s0)))"
proof -
  have run: "training_cell ext0 False s0 = (None, snd (training_cell ext0 False s0))"
    using training_run_completes [OF reliable_ext0, of s0] by (simp add: prod_eq_iff)
  have start: "list_all same_data (trained s0)" "trained s0 = []"
    by (simp_all add: s0_def)
  show ?thesis
    using run start cell_tally [OF run] autoencoder_reconstructs_input [OF run start(1)]
    by simp
qed

subsection \<open>The steps of the three scripts\<close>



subsection \<open>The anatomy of a run that loads the weights\<close>

lemma paths_distinct:
  "param_dir \<noteq> param_path @ ''.index''"
  "param_zip_path \<noteq> param_path @ ''.index''"
  "param_path @ ''.index'' \<noteq> param_zip_path"
  "param_dir \<noteq> param_zip_path"
  by (simp_all add: param_dir_def param_path_def param_zip_path_def os_path_join_def)

lemma ensure_dir_effect:
  assumes "ensure_dir X s = (r, s')"
  shows "requests s' = requests s \<and> (r \<noteq> None \<longrightarrow> files s' = files s)
         \<and> (r = None \<longrightarrow> files s' =
               (if files s param_dir = None then (files s)(param_dir \<mapsto> Directory) else files s))"
  using assms
  by (auto simp: ensure_dir_def os_mkdir_def os_path_exists_def split: if_splits option.splits)

lemma ensure_params_cached:
  "files s (param_path @ ''.index'') \<noteq> None \<Longrightarrow> ensure_params X s = (None, s)"
  by (simp add: ensure_params_def os_path_exists_def)

lemma os_remove_done:
  "os_remove X p s = (None, s') \<Longrightarrow> files s' = (files s)(p := None)"
  by (auto simp: os_remove_def split: option.splits fnode.splits)

lemma ensure_params_download:
  assumes absent: "files s (param_path @ ''.index'') = None"
    and run: "ensure_params X s = (r, s')"
  shows "requests s' = requests s @ [weights_url]
         \<and> (r = None \<longrightarrow> files s' param_zip_path = None)
         \<and> (r = None \<longrightarrow>
              (\<exists>fs1 fs2. lib_urlretrieve X weights_url param_zip_path (files s) = (None, fs1)
                 \<and> lib_extractall X param_zip_path param_dir fs1 = (None, fs2)
                 \<and> files s' = fs2(param_zip_path := None)))
         \<and> (\<forall>e fs. lib_urlretrieve X weights_url param_zip_path (files s) = (Some e, fs)
              \<longrightarrow> r = Some (LibError e))
         \<and> (\<forall>e fs1 fs2. lib_urlretrieve X weights_url param_zip_path (files s) = (None, fs1)
              \<and> lib_extractall X param_zip_path param_dir fs1 = (Some e, fs2)
              \<longrightarrow> r = Some (LibError e))"
proof -
  obtain e1 fs1 where u: "lib_urlretrieve X weights_url param_zip_path (files s) = (e1, fs1)"
    by (cases "lib_urlretrieve X weights_url param_zip_path (files s)")
  show ?thesis
  proof (cases e1)
    case (Some e)
    then show ?thesis
      using absent run u
      by (auto simp: ensure_params_def os_path_exists_def urlretrieve_def)
  next
    case None
    obtain e2 fs2 where x: "lib_extractall X param_zip_path param_dir fs1 = (e2, fs2)"
      by (cases "lib_extractall X param_zip_path param_dir fs1")
    show ?thesis
    proof (cases e2)
      case (Some e)
      then show ?thesis
        using absent run u None x
        by (auto simp: ensure_params_def os_path_exists_def urlretrieve_def unzip_def)
    next
      case ok: None
      let ?s2 = "s\<lparr>requests := requests s @ [weights_url], files := fs2\<rparr>"
      have "os_remove X param_zip_path ?s2 = (r, s')"
        using absent run u None x ok
        by (auto simp: ensure_params_def os_path_exists_def urlretrieve_def unzip_def
              split: prod.splits option.splits)
      then have "requests s' = requests s @ [weights_url]"
        and "r = None \<longrightarrow> files s' = fs2(param_zip_path := None)"
        by (auto simp: os_remove_def split: option.splits fnode.splits)
      then show ?thesis
        using u None x ok by auto
    qed
  qed
qed

lemma loading_run_flat:
  "training_cell X True s =
     block (loading_pre X @ [ensure_dir X] @ [ensure_params X] @ loading_post X) s"
proof -
  have "training_cell X True s =
      block ([init_vars X, enter_simulator X] @
         (block [assign_gen_data X 0, append_loss X, run_sim X, ensure_dir X, ensure_params X,
            load_params X]
          # [append_loss X, print_losses, final_delta X, run_sim X, incr_counted])) s"
    by (simp add: training_cell_def loading_branch_def)
  also have "\<dots> = block ([init_vars X, enter_simulator X] @
         ([assign_gen_data X 0, append_loss X, run_sim X, ensure_dir X, ensure_params X,
            load_params X]
          @ [append_loss X, print_losses, final_delta X, run_sim X, incr_counted])) s"
    unfolding block_append [of "[init_vars X, enter_simulator X]"] block_nested ..
  finally show ?thesis
    by (simp add: loading_pre_def loading_post_def)
qed

lemma net_fs_loading_pre: "keeps net_fs (block (loading_pre X))"
  unfolding loading_pre_def
  by (rule keeps_block)
     (auto simp: net_fs_init_vars net_fs_enter_simulator net_fs_assign_gen_data
        net_fs_append_loss net_fs_run_sim)

lemma net_fs_loading_post: "keeps net_fs (block (loading_post X))"
  unfolding loading_post_def
  by (rule keeps_block)
     (auto simp: net_fs_load_params net_fs_append_loss net_fs_print_losses net_fs_final_delta
        net_fs_run_sim net_fs_incr_counted)

lemma loading_run_cases:
  assumes run: "training_cell X True s = (r, s')"
  obtains
    (early) "r \<noteq> None" "requests s' = requests s" "files s' = files s"
  | (late) s1 r2 s2 where
      "requests s1 = requests s"
      "files s1 = (if files s param_dir = None then (files s)(param_dir \<mapsto> Directory) else files s)"
      "ensure_params X s1 = (r2, s2)"
      "requests s' = requests s2" "files s' = files s2"
      "r2 \<noteq> None \<Longrightarrow> r = r2"  "r = None \<Longrightarrow> r2 = None"
proof -
  obtain r0 s0 where pre: "block (loading_pre X) s = (r0, s0)"
    by (cases "block (loading_pre X) s")
  have k0: "net_fs s0 = net_fs s"
    using keepsD [OF net_fs_loading_pre pre] .
  show thesis
  proof (cases r0)
    case (Some x)
    then have "(r, s') = (Some x, s0)"
      using run pre by (simp add: loading_run_flat block_append)
    then show thesis
      using k0 early by (simp add: net_fs_def)
  next
    case None
    obtain r1 s1 where d: "ensure_dir X s0 = (r1, s1)"
      by (cases "ensure_dir X s0")
    note de = ensure_dir_effect [OF d]
    show thesis
    proof (cases r1)
      case (Some x)
      then have "(r, s') = (Some x, s1)"
        using run by (simp add: loading_run_flat block_append pre None d)
      then show thesis
        using de k0 Some early by (simp add: net_fs_def)
    next
      case made: None
      obtain r2 s2 where e: "ensure_params X s1 = (r2, s2)"
        by (cases "ensure_params X s1")
      obtain r3 s3 where p: "block (loading_post X) s2 = (r3, s3)"
        by (cases "block (loading_post X) s2")
      have k3: "net_fs s3 = net_fs s2"
        using keepsD [OF net_fs_loading_post p] .
      have res: "(r, s') = (case r2 of None \<Rightarrow> (r3, s3) | Some x \<Rightarrow> (Some x, s2))"
        using run
        by (cases r2) (auto simp: loading_run_flat block_append pre None d made e p)
      show thesis
      proof (rule late [of s1 r2 s2])
        show "requests s1 = requests s" using de k0 by (simp add: net_fs_def)
        show "files s1 = (if files s param_dir = None then (files s)(param_dir \<mapsto> Directory)
            else files s)"
          using de k0 made by (simp add: net_fs_def)
        show "ensure_params X s1 = (r2, s2)" by (rule e)
        show "requests s' = requests s2" using res k3 by (auto simp: net_fs_def split: option.splits)
        show "files s' = files s2" using res k3 by (auto simp: net_fs_def split: option.splits)
        show "r2 \<noteq> None \<Longrightarrow> r = r2" using res by (auto split: option.splits)
        show "r = None \<Longrightarrow> r2 = None" using res by (auto split: option.splits)
      qed
    qed
  qed
qed

lemma dir_made_index:
  "(if files s param_dir = None then (files s)(param_dir \<mapsto> Directory) else files s)
     (param_path @ ''.index'') = files s (param_path @ ''.index'')"
  using paths_distinct by simp

lemma training_run_net_fs:
  assumes "training_cell X False s = (r, s')"
  shows "requests s' = requests s \<and> files s' = files s"
proof -
  have "net_fs s' = net_fs s"
    using assms by (rule keepsD [OF net_fs_training_run])
  then show ?thesis by (simp add: net_fs_def)
qed

lemma cached_run:
  assumes run: "training_cell X LOADING s = (r, s')"
    and cached: "files s (param_path @ ''.index'') \<noteq> None"
  shows "requests s' = requests s
         \<and> files s' (param_path @ ''.index'') = files s (param_path @ ''.index'')"
proof (cases LOADING)
  case False
  then show ?thesis
    using training_run_net_fs [of X s r s'] run by simp
next
  case True
  then have run': "training_cell X True s = (r, s')"
    using run by simp
  from run' show ?thesis
  proof (cases rule: loading_run_cases)
    case early
    then show ?thesis by simp
  next
    case (late s1 r2 s2)
    have "files s1 (param_path @ ''.index'') \<noteq> None"
      using late(2) dir_made_index [of s] cached by simp
    then have "s2 = s1"
      using ensure_params_cached [of s1 X] late(3) by simp
    then show ?thesis
      using late paths_distinct by auto
  qed
qed

lemma download_run:
  assumes run: "training_cell X True s = (r, s')"
    and absent: "files s (param_path @ ''.index'') = None"
  shows "(r \<noteq> None \<and> requests s' = requests s \<and> files s' = files s) \<or>
         (requests s' = requests s @ [weights_url]
          \<and> (\<exists>s1 s2. files s1 =
                (if files s param_dir = None then (files s)(param_dir \<mapsto> Directory) else files s)
              \<and> files s1 (param_path @ ''.index'') = None
              \<and> ensure_params X s1 = (if r = None then None else fst (ensure_params X s1), s2)
              \<and> files s' = files s2
              \<and> (fst (ensure_params X s1) \<noteq> None \<longrightarrow> r = fst (ensure_params X s1))))"
  using run
proof (cases rule: loading_run_cases)
  case early
  then show ?thesis by simp
next
  case (late s1 r2 s2)
  have a: "files s1 (param_path @ ''.index'') = None"
    using late(2) dir_made_index [of s] absent by simp
  have "requests s2 = requests s1 @ [weights_url]"
    using ensure_params_download [OF a late(3)] by simp
  then have "requests s' = requests s @ [weights_url]"
    using late by simp
  moreover have "ensure_params X s1 = (if r = None then None else fst (ensure_params X s1), s2)"
    using late(3,7) by auto
  moreover have "fst (ensure_params X s1) \<noteq> None \<longrightarrow> r = fst (ensure_params X s1)"
    using late(3,6) by auto
  ultimately show ?thesis
    using late(2,5) a by blast
qed

lemma download_run_effect:
  assumes run: "training_cell X True s = (r, s')"
    and absent: "files s (param_path @ ''.index'') = None"
    and req: "requests s' \<noteq> requests s"
  defines "fs0 \<equiv> (if files s param_dir = None then (files s)(param_dir \<mapsto> Directory) else files s)"
  shows "requests s' = requests s @ [weights_url]"
    and "r = None \<Longrightarrow> files s' param_zip_path = None"
    and "r = None \<Longrightarrow>
           \<exists>fs1 fs2. lib_urlretrieve X weights_url param_zip_path fs0 = (None, fs1)
             \<and> lib_extractall X param_zip_path param_dir fs1 = (None, fs2)
             \<and> files s' = fs2(param_zip_path := None)"
    and "lib_urlretrieve X weights_url param_zip_path fs0 = (Some e, fs) \<Longrightarrow> r = Some (LibError e)"
    and "lib_urlretrieve X weights_url param_zip_path fs0 = (None, fs1) \<Longrightarrow>
         lib_extractall X param_zip_path param_dir fs1 = (Some e, fs2) \<Longrightarrow> r = Some (LibError e)"
    and "lib_urlretrieve X weights_url param_zip_path fs0 = (None, fs1) \<Longrightarrow>
         lib_extractall X param_zip_path param_dir fs1 = (None, fs2) \<Longrightarrow>
         fs2 param_zip_path = Some File \<Longrightarrow> remove_refused X param_zip_path fs2 = None \<Longrightarrow>
         files s' param_zip_path = None"
proof -
  obtain s1 s2 where s1: "files s1 = fs0" "files s1 (param_path @ ''.index'') = None"
    and e: "ensure_params X s1 = (if r = None then None else fst (ensure_params X s1), s2)"
    and f: "files s' = files s2"
    and p: "fst (ensure_params X s1) \<noteq> None \<longrightarrow> r = fst (ensure_params X s1)"
    and q: "requests s' = requests s @ [weights_url]"
    using download_run [OF run absent] req unfolding fs0_def by auto
  note d = ensure_params_download [OF s1(2) e]
  show "requests s' = requests s @ [weights_url]" by (rule q)
  show "r = None \<Longrightarrow> files s' param_zip_path = None"
    using d f by simp
  show "r = None \<Longrightarrow>
           \<exists>fs1 fs2. lib_urlretrieve X weights_url param_zip_path fs0 = (None, fs1)
             \<and> lib_extractall X param_zip_path param_dir fs1 = (None, fs2)
             \<and> files s' = fs2(param_zip_path := None)"
    using d f s1(1) by simp
  show "lib_urlretrieve X weights_url param_zip_path fs0 = (Some e, fs) \<Longrightarrow> r = Some (LibError e)"
    using d s1(1) p e by (auto split: if_splits)
  show "lib_urlretrieve X weights_url param_zip_path fs0 = (None, fs1) \<Longrightarrow>
         lib_extractall X param_zip_path param_dir fs1 = (Some e, fs2) \<Longrightarrow> r = Some (LibError e)"
    using d s1(1) p e by (auto split: if_splits)
  show "files s' param_zip_path = None"
    if u: "lib_urlretrieve X weights_url param_zip_path fs0 = (None, fs1)"
      and x: "lib_extractall X param_zip_path param_dir fs1 = (None, fs2)"
      and z: "fs2 param_zip_path = Some File" and ok: "remove_refused X param_zip_path fs2 = None"
  proof -
    have "files (snd (ensure_params X s1)) param_zip_path = None"
      using s1 u x z ok
      by (simp add: ensure_params_def os_path_exists_def urlretrieve_def unzip_def os_remove_def)
    then show ?thesis
      using e f by (simp add: prod_eq_iff split: if_splits)
  qed
qed

subsection \<open>The download of the pretrained weights\<close>

text \<open>
  C4. The download of the pretrained weights happens only when the \<open>LOADING\<close> flag is set
  and the index file of the parameters is not there yet, and it is then the one request
  for the weights URL; a run that finds the index file makes no network request; a run
  that made the request and completed leaves no archive; and once the download and the
  extraction have succeeded, \<open>os.remove\<close> deletes the archive (a file that the
  operating system lets go), whatever the rest of the run does.
\<close>

theorem pretrained_weights_download:
  fixes X :: "('e, 'sim, 'arr, 'f) ext"
  assumes run: "training_cell X LOADING s = (r, s')"
  shows "(requests s' = requests s \<or>
            (LOADING \<and> files s (param_path @ ''.index'') = None
             \<and> requests s' = requests s @ [weights_url]))
       \<and> (files s (param_path @ ''.index'') \<noteq> None \<longrightarrow> requests s' = requests s)
       \<and> (requests s' \<noteq> requests s \<and> r = None \<longrightarrow> files s' param_zip_path = None)
       \<and> (requests s' \<noteq> requests s
            \<and> lib_urlretrieve X weights_url param_zip_path
                 (if files s param_dir = None then (files s)(param_dir \<mapsto> Directory) else files s)
                = (None, fs1)
            \<and> lib_extractall X param_zip_path param_dir fs1 = (None, fs2)
            \<and> fs2 param_zip_path = Some File \<and> remove_refused X param_zip_path fs2 = None
            \<longrightarrow> files s' param_zip_path = None)"
proof (cases "requests s' = requests s")
  case True
  then show ?thesis by simp
next
  case False
  have L: LOADING
    using training_run_net_fs [of X s r s'] run False by (cases LOADING) simp_all
  then have run': "training_cell X True s = (r, s')"
    using run by simp
  have absent: "files s (param_path @ ''.index'') = None"
  proof (rule ccontr)
    assume "files s (param_path @ ''.index'') \<noteq> None"
    then have "requests s' = requests s"
      using cached_run [OF run'] by simp
    then show False
      using False by simp
  qed
  note d = download_run_effect [OF run' absent False]
  show ?thesis
    using L absent d(1) d(2) d(6) [of fs1 fs2] by auto
qed

theorem pretrained_weights_download_witness:
  "requests first_run \<noteq> requests s0 \<and> fst (training_cell ext0 True s0) = None
   \<and> fst (lib_urlretrieve ext0 weights_url param_zip_path [param_dir \<mapsto> Directory]) = None
   \<and> fst (lib_extractall ext0 param_zip_path param_dir
        [param_dir \<mapsto> Directory, param_zip_path \<mapsto> File]) = None
   \<and> requests first_run = [weights_url]
   \<and> files s0 (param_path @ ''.index'') = None
   \<and> files first_run param_zip_path = None
   \<and> files first_run (param_path @ ''.index'') \<noteq> None
   \<and> requests second_run = requests first_run"
proof -
  let ?fs0 = "[param_dir \<mapsto> Directory]"
  let ?fs1 = "[param_dir \<mapsto> Directory, param_zip_path \<mapsto> File]"
  let ?fs2 = "?fs1(os_path_join param_dir ''Nengo-Autoencoder.index'' \<mapsto> File,
                   os_path_join param_dir ''Nengo-Autoencoder.meta'' \<mapsto> File)"
  have run1: "training_cell ext0 True s0 = (fst (training_cell ext0 True s0), first_run)"
    by (simp add: first_run_def)
  have run2: "training_cell ext0 True first_run = (fst (training_cell ext0 True first_run), second_run)"
    by (simp add: second_run_def)
  have a: "requests first_run \<noteq> requests s0"
    by code_simp
  have b: "fst (training_cell ext0 True s0) = None"
    by code_simp
  have c: "files first_run (param_path @ ''.index'') \<noteq> None"
    by code_simp
  have d: "files s0 (param_path @ ''.index'') = None" "requests s0 = []" "files s0 param_dir = None"
    "files s0 = Map.empty"
    by (simp_all add: s0_def)
  have u: "lib_urlretrieve ext0 weights_url param_zip_path ?fs0 = (None, ?fs1)"
    using paths_distinct by (simp add: ext0_def)
  have x: "lib_extractall ext0 param_zip_path param_dir ?fs1 = (None, ?fs2)"
    by (simp add: ext0_def)
  have z: "?fs2 param_zip_path = Some File"
    by (simp add: param_dir_def param_zip_path_def os_path_join_def)
  have ok: "remove_refused ext0 param_zip_path ?fs2 = None"
    by (simp add: ext0_def)
  show ?thesis
    using a b c d u x z ok
      pretrained_weights_download [OF run1, of ?fs1 ?fs2]
      pretrained_weights_download [OF run2, of ?fs1 ?fs2]
    by auto
qed

subsection \<open>The rule table, the cache and the order of the training calls\<close>

lemma feedsD:
  "feeds p l \<Longrightarrow> p s = (None, s') \<Longrightarrow> map Inr (trained s') = map Inr (trained s) @ l"
  unfolding feeds_def by blast

lemma feeds_keeps: "keeps trained p \<Longrightarrow> feeds p []"
  unfolding feeds_def using keepsD [of trained p] by fastforce

lemma feeds_nil: "feeds (block []) []"
  by (simp add: feeds_def)

lemma feeds_append:
  assumes a: "feeds (block ps) a" and b: "feeds (block qs) b"
  shows "feeds (block (ps @ qs)) (a @ b)"
  unfolding feeds_def
proof (intro allI impI)
  fix s s'
  assume run: "block (ps @ qs) s = (None, s')"
  obtain r1 s1 where 1: "block ps s = (r1, s1)" by (cases "block ps s")
  have r1: "r1 = None" and 2: "block qs s1 = (None, s')"
    using run 1 by (auto simp: block_append split: option.splits)
  show "map Inr (trained s') = map Inr (trained s) @ a @ b"
    using feedsD [OF a 1 [unfolded r1]] feedsD [OF b 2] by simp
qed

lemma feeds_for_each:
  assumes "\<And>i. i \<in> set js \<Longrightarrow> feeds (body i) (f i)"
  shows "feeds (for_each js body) (concat (map f js))"
  using assms
proof (induction js)
  case Nil
  show ?case by (simp add: feeds_def)
next
  case (Cons j js)
  have h: "feeds (body j) (f j)" and t: "feeds (for_each js body) (concat (map f js))"
    using Cons by simp_all
  show ?case
    unfolding feeds_def
  proof (intro allI impI)
    fix s s'
    assume run: "for_each (j # js) body s = (None, s')"
    obtain r1 s1 where 1: "body j s = (r1, s1)" by (cases "body j s")
    have r1: "r1 = None" and 2: "for_each js body s1 = (None, s')"
      using run 1 by (auto split: option.splits)
    show "map Inr (trained s') = map Inr (trained s) @ concat (map f (j # js))"
      using feedsD [OF h 1 [unfolded r1]] feedsD [OF t 2] by simp
  qed
qed

lemma feeds_gen_train:
  "feeds (block [assign_gen_data X pos, train X]) [gen_data (present X) steps n_examples pos]"
  unfolding feeds_def
  by (auto simp: assign_gen_data_def train_def Let_def
        split: sum.splits option.splits prod.splits)

lemma feeds_batch_body:
  "feeds (batch_body X e i) [gen_data (present X) steps n_examples (n_examples * i)]"
proof -
  let ?pr = "\<lambda>s :: ('a, 'b, 'c, 'd) nb. (None :: 'a exn option,
      s\<lparr>stdout := stdout s @ [Print_progress (i + 1) n_iters]\<rparr>)"
  have a: "feeds (block [?pr]) []"
    by (rule feeds_keeps, rule keeps_block) (auto simp: keeps_def)
  have c: "feeds (block [update_round_time X i, restart_timer X, print_ETA X e i]) []"
    by (rule feeds_keeps, rule keeps_block)
       (auto simp: trained_update_round_time trained_restart_timer trained_print_ETA)
  have "feeds (block ([?pr] @ [assign_gen_data X (n_examples * i), train X]
      @ [update_round_time X i, restart_timer X, print_ETA X e i]))
      ([] @ [gen_data (present X) steps n_examples (n_examples * i)] @ [])"
    by (rule feeds_append [OF a feeds_append [OF feeds_gen_train c]])
  then show ?thesis
    by (simp add: batch_body_def)
qed

lemma feeds_repetition_body:
  "feeds (repetition_body X e)
     (map (\<lambda>i. gen_data (present X) steps n_examples (n_examples * i)) [0..n_iters - 1])"
proof -
  have a: "feeds (block [assign_gen_data X 0, append_loss X, print_losses, update_delta X,
      run_sim X, incr_counted]) []"
    by (rule feeds_keeps, rule keeps_block)
       (auto simp: trained_assign_gen_data trained_append_loss trained_print_losses
          trained_update_delta trained_run_sim trained_incr_counted)
  have b: "feeds (for_each [0..n_iters - 1] (batch_body X e))
      (concat (map (\<lambda>i. [gen_data (present X) steps n_examples (n_examples * i)]) [0..n_iters - 1]))"
    by (rule feeds_for_each) (rule feeds_batch_body)
  have b': "feeds (block [for_each [0..n_iters - 1] (batch_body X e)])
      (map (\<lambda>i. gen_data (present X) steps n_examples (n_examples * i)) [0..n_iters - 1])"
    using b by (auto simp: feeds_def concat_map_singleton split: prod.splits option.splits)
  show ?thesis
    using feeds_append [OF a b'] by (simp add: repetition_body_def)
qed

lemma feeds_training_branch:
  "feeds (training_branch X)
     (concat (replicate 15
        (map (\<lambda>i. gen_data (present X) steps n_examples (n_examples * i)) [0..n_iters - 1])))"
proof -
  let ?L = "map (\<lambda>i. gen_data (present X) steps n_examples (n_examples * i)) [0..n_iters - 1]"
  have a: "feeds (block [make_optimizer X]) []"
    by (rule feeds_keeps, rule keeps_block) (auto simp: trained_make_optimizer)
  have "feeds (for_each [0..repetitions - 1] (repetition_body X))
      (concat (map (\<lambda>e. ?L) [0..repetitions - 1]))"
    by (rule feeds_for_each) (rule feeds_repetition_body)
  moreover have "map (\<lambda>e. ?L) [0..repetitions - 1] = replicate 15 ?L"
    by (simp add: map_replicate_const repetitions_def)
  ultimately have b: "feeds (block [for_each [0..repetitions - 1] (repetition_body X)])
      (concat (replicate 15 ?L))"
    by (auto simp: feeds_def split: prod.splits option.splits)
  show ?thesis
    using feeds_append [OF a b] by (simp add: training_branch_def)
qed

lemma feeds_training_run:
  "feeds (training_cell X False)
     (concat (replicate 15
        (map (\<lambda>i. gen_data (present X) steps n_examples (n_examples * i)) [0..n_iters - 1])))"
proof -
  have a: "feeds (block [init_vars X, enter_simulator X]) []"
    by (rule feeds_keeps, rule keeps_block) (auto simp: trained_init_vars trained_enter_simulator)
  have b: "feeds (block [training_branch X])
     (concat (replicate 15
        (map (\<lambda>i. gen_data (present X) steps n_examples (n_examples * i)) [0..n_iters - 1])))"
    using feeds_training_branch [of X]
    by (auto simp: feeds_def split: prod.splits option.splits)
  have c: "feeds (block [append_loss X, print_losses, final_delta X, run_sim X, incr_counted]) []"
    by (rule feeds_keeps, rule keeps_block)
       (auto simp: trained_append_loss trained_print_losses trained_final_delta
          trained_run_sim trained_incr_counted)
  show ?thesis
    using feeds_append [OF a feeds_append [OF b c]] by (simp add: training_cell_def)
qed

lemma trained_loading_run: "keeps trained (training_cell X True)"
  unfolding training_cell_def
  by (rule keeps_block)
     (auto simp: trained_init_vars trained_enter_simulator trained_loading_branch
        trained_append_loss trained_print_losses trained_final_delta trained_run_sim
        trained_incr_counted)

lemma length_concat_replicate: "length (concat (replicate n xs)) = n * length xs"
  by (induction n) simp_all

lemma actions_text:
  "map rule_text actions =
     [''dot(vision, START) --> state = vision'',
      ''dot(state, A) --> state = B'',
      ''dot(state, B) --> state = C'',
      ''dot(state, C) --> state = D'',
      ''dot(state, D) --> state = E'',
      ''dot(state, E) --> state = A'']"
  by (simp add: actions_def rule_text_def)

lemma table_cycle:
  "table_states = [''A'', ''B'', ''C'', ''D'', ''E'']"
  "map transition table_states = [Some ''B'', Some ''C'', Some ''D'', Some ''E'', Some ''A'']"
  by code_simp+

text \<open>
  C2, as the specification states it, has no notebook define a transition system over its
  own states, and no notebook keep a result in order to skip fetching it again on a later
  run. Both are in the source. The six rules that the routed-sequencing notebook writes
  for \<open>spa.Actions\<close> are a transition system on the pointers A to E: from each, the table
  leads to the next, and from E back to A. And the \<open>LOADING\<close> branch of the autoencoder
  notebook keeps what it downloaded: the first run in an empty directory requests the
  archive and leaves the index file; the second run, with the same libraries, finds the
  index file and makes no request; and the same second run requests the archive again
  once the index file is taken away.
\<close>

theorem cache_and_rule_table_counterexample:
  "map rule_text actions =
     [''dot(vision, START) --> state = vision'',
      ''dot(state, A) --> state = B'',
      ''dot(state, B) --> state = C'',
      ''dot(state, C) --> state = D'',
      ''dot(state, D) --> state = E'',
      ''dot(state, E) --> state = A'']
   \<and> table_states = [''A'', ''B'', ''C'', ''D'', ''E'']
   \<and> map transition table_states = [Some ''B'', Some ''C'', Some ''D'', Some ''E'', Some ''A'']
   \<and> requests s0 = [] \<and> requests first_run = [weights_url]
   \<and> files first_run (param_path @ ''.index'') = Some File
   \<and> requests second_run = [weights_url]
   \<and> requests second_run_without_index = [weights_url, weights_url]"
  by code_simp

text \<open>
  C2, amended. The source holds a declared state machine and a cache, and neither a
  scheduler nor a protocol of its own, in this sense.
  \<^item> The rule table of the routed-sequencing notebook is a transition system on the
    pointers A, B, C, D, E that its conditions name: it leads from A to B, from B to C,
    from C to D, from D to E and from E to A.
  \<^item> The working directory of the autoencoder notebook is a download cache. A run of the
    training cell that finds the index file makes no network request and leaves the index
    file as it is, whatever the flag and whatever the libraries do. A \<open>LOADING\<close> run
    that does not find it and completes leaves in the directory what the extraction of
    the downloaded archive left there, less the archive.
  \<^item> The only network exchange of a run is at most one request, for the one weights URL.
  \<^item> The order of the training calls is fixed by the two loops of the cell: a run with
    \<open>LOADING\<close> False that completes has called \<open>sim.train\<close> on the batches at
    positions 0, 64, ..., 64 * 858, in this order, 15 times over, each time with what
    \<open>gen_data\<close> returned for the position; a \<open>LOADING\<close> run calls \<open>sim.train\<close>
    never.
\<close>

theorem cache_and_rule_table:
  fixes X :: "('e, 'sim, 'arr, 'f) ext"
  shows
    "table_states = [''A'', ''B'', ''C'', ''D'', ''E'']
     \<and> map transition table_states = [Some ''B'', Some ''C'', Some ''D'', Some ''E'', Some ''A'']
     \<and> (training_cell X LOADING s = (r, s') \<and> files s (param_path @ ''.index'') \<noteq> None \<longrightarrow>
          requests s' = requests s
          \<and> files s' (param_path @ ''.index'') = files s (param_path @ ''.index''))
     \<and> (training_cell X True s = (None, s') \<and> files s (param_path @ ''.index'') = None \<longrightarrow>
          (\<exists>fs1 fs2.
             lib_urlretrieve X weights_url param_zip_path
               (if files s param_dir = None then (files s)(param_dir \<mapsto> Directory) else files s)
               = (None, fs1)
             \<and> lib_extractall X param_zip_path param_dir fs1 = (None, fs2)
             \<and> files s' = fs2(param_zip_path := None)))
     \<and> (training_cell X LOADING s = (r, s') \<longrightarrow>
          requests s' = requests s \<or> requests s' = requests s @ [weights_url])
     \<and> (training_cell X False s = (None, s') \<longrightarrow>
          map Inr (trained s') =
            map Inr (trained s)
            @ concat (replicate 15
                (map (\<lambda>i. gen_data (present X) steps n_examples (n_examples * i))
                   [0..n_iters - 1])))
     \<and> (training_cell X True s = (r, s') \<longrightarrow> trained s' = trained s)"
proof -
  have 3: "training_cell X LOADING s = (r, s') \<and> files s (param_path @ ''.index'') \<noteq> None \<longrightarrow>
          requests s' = requests s
          \<and> files s' (param_path @ ''.index'') = files s (param_path @ ''.index'')"
    using cached_run [of X LOADING s r s'] by simp
  have 4: "training_cell X True s = (None, s') \<and> files s (param_path @ ''.index'') = None \<longrightarrow>
          (\<exists>fs1 fs2.
             lib_urlretrieve X weights_url param_zip_path
               (if files s param_dir = None then (files s)(param_dir \<mapsto> Directory) else files s)
               = (None, fs1)
             \<and> lib_extractall X param_zip_path param_dir fs1 = (None, fs2)
             \<and> files s' = fs2(param_zip_path := None))"
  proof
    assume a: "training_cell X True s = (None, s') \<and> files s (param_path @ ''.index'') = None"
    then have run: "training_cell X True s = (None, s')"
      and absent: "files s (param_path @ ''.index'') = None"
      by simp_all
    have req: "requests s' \<noteq> requests s"
      using download_run [OF run absent] by auto
    show "\<exists>fs1 fs2.
             lib_urlretrieve X weights_url param_zip_path
               (if files s param_dir = None then (files s)(param_dir \<mapsto> Directory) else files s)
               = (None, fs1)
             \<and> lib_extractall X param_zip_path param_dir fs1 = (None, fs2)
             \<and> files s' = fs2(param_zip_path := None)"
      using download_run_effect(3) [OF run absent req] by simp
  qed
  have 5: "training_cell X LOADING s = (r, s') \<longrightarrow>
          requests s' = requests s \<or> requests s' = requests s @ [weights_url]"
  proof
    assume run: "training_cell X LOADING s = (r, s')"
    show "requests s' = requests s \<or> requests s' = requests s @ [weights_url]"
    proof (cases "LOADING \<and> files s (param_path @ ''.index'') = None")
      case True
      then show ?thesis
        using download_run [of X s r s'] run by auto
    next
      case False
      then show ?thesis
        using cached_run [OF run] training_run_net_fs [of X s r s'] run by (cases LOADING) auto
    qed
  qed
  have 6: "training_cell X False s = (None, s') \<longrightarrow>
          map Inr (trained s') =
            map Inr (trained s)
            @ concat (replicate 15
                (map (\<lambda>i. gen_data (present X) steps n_examples (n_examples * i))
                   [0..n_iters - 1]))"
    using feedsD [OF feeds_training_run, of X s s'] by simp
  have 7: "training_cell X True s = (r, s') \<longrightarrow> trained s' = trained s"
    using keepsD [OF trained_loading_run, of X s r s'] by simp
  show ?thesis
    using table_cycle 3 4 5 6 7 by blast
qed

theorem cache_and_rule_table_witness:
  "training_cell ext_404 True first_run
     = (fst (training_cell ext_404 True first_run), snd (training_cell ext_404 True first_run))
   \<and> files first_run (param_path @ ''.index'') \<noteq> None
   \<and> requests (snd (training_cell ext_404 True first_run)) = requests first_run
   \<and> training_cell ext0 True s0 = (None, first_run)
   \<and> files s0 (param_path @ ''.index'') = None
   \<and> files first_run param_zip_path = None
   \<and> training_cell ext0 False s0 = (None, snd (training_cell ext0 False s0))
   \<and> length (trained (snd (training_cell ext0 False s0))) = 12885
   \<and> trained first_run = []"
proof -
  have l1: "training_cell ext_404 True first_run
      = (fst (training_cell ext_404 True first_run), snd (training_cell ext_404 True first_run))"
    by simp
  have a: "fst (training_cell ext0 True s0) = None"
    by code_simp
  have run1: "training_cell ext0 True s0 = (None, first_run)"
    using a by (simp add: first_run_def prod_eq_iff)
  have c: "files first_run (param_path @ ''.index'') \<noteq> None"
    by code_simp
  have d: "files s0 (param_path @ ''.index'') = None" "trained s0 = []"
    by (simp_all add: s0_def)
  have "fst (training_cell ext0 False s0) = None"
    by (rule training_run_completes [OF reliable_ext0])
  then have run3: "training_cell ext0 False s0 = (None, snd (training_cell ext0 False s0))"
    by (simp add: prod_eq_iff)
  note w1 = cache_and_rule_table [where X = ext_404 and LOADING = True and s = first_run
      and r = "fst (training_cell ext_404 True first_run)"
      and s' = "snd (training_cell ext_404 True first_run)"]
  note w2 = cache_and_rule_table [where X = ext0 and LOADING = True and s = s0
      and r = None and s' = first_run]
  note w3 = cache_and_rule_table [where X = ext0 and LOADING = False and s = s0
      and r = None and s' = "snd (training_cell ext0 False s0)"]
  have e1: "requests (snd (training_cell ext_404 True first_run)) = requests first_run"
    using w1 l1 c by blast
  have e2: "\<exists>fs2. files first_run = fs2(param_zip_path := None)"
    using w2 run1 d(1) by blast
  then have e2': "files first_run param_zip_path = None"
    by auto
  have e3: "trained first_run = []"
    using w2 run1 d(2) by simp
  have "map Inr (trained (snd (training_cell ext0 False s0))) =
      map Inr (trained s0)
      @ concat (replicate 15
          (map (\<lambda>i. gen_data (present ext0) steps n_examples (n_examples * i))
             [0..n_iters - 1]))"
    using w3 run3 by blast
  then have "length (map Inr (trained (snd (training_cell ext0 False s0)))
      :: (string exn + int feed \<times> int feed) list) = 15 * 859"
    by (simp add: d(2) length_concat_replicate n_iters_859)
  then have e4: "length (trained (snd (training_cell ext0 False s0))) = 12885"
    by simp
  show ?thesis
    using l1 c e1 run1 d(1) e2' run3 e4 e3 by simp
qed

subsection \<open>Exceptions of the libraries reach the caller\<close>

lemma honestD:
  "honest p \<Longrightarrow> p s = (r, s') \<Longrightarrow>
   raised s' = raised s @ (case r of None \<Rightarrow> [] | Some x \<Rightarrow> [x])"
  unfolding honest_def by (metis fst_conv snd_conv)

lemma honest_block: "(\<And>p. p \<in> set ps \<Longrightarrow> honest p) \<Longrightarrow> honest (block ps)"
proof (induction ps)
  case Nil
  show ?case by (simp add: honest_def)
next
  case (Cons p ps)
  have hp: "honest p" and hb: "honest (block ps)"
    using Cons by simp_all
  show ?case
    unfolding honest_def
  proof
    fix s
    obtain r1 s1 where 1: "p s = (r1, s1)" by (cases "p s")
    note a = honestD [OF hp 1]
    show "raised (snd (block (p # ps) s)) =
        raised s @ (case fst (block (p # ps) s) of None \<Rightarrow> [] | Some x \<Rightarrow> [x])"
    proof (cases r1)
      case None
      obtain r2 s2 where 2: "block ps s1 = (r2, s2)" by (cases "block ps s1")
      show ?thesis
        using 1 None a 2 honestD [OF hb 2] by simp
    next
      case (Some x)
      then show ?thesis
        using 1 a by simp
    qed
  qed
qed

lemma honest_for_each:
  "(\<And>i. i \<in> set js \<Longrightarrow> honest (body i)) \<Longrightarrow> honest (for_each js body)"
proof (induction js)
  case Nil
  show ?case by (simp add: honest_def)
next
  case (Cons j js)
  have hp: "honest (body j)" and hb: "honest (for_each js body)"
    using Cons by simp_all
  show ?case
    unfolding honest_def
  proof
    fix s
    obtain r1 s1 where 1: "body j s = (r1, s1)" by (cases "body j s")
    note a = honestD [OF hp 1]
    show "raised (snd (for_each (j # js) body s)) =
        raised s @ (case fst (for_each (j # js) body s) of None \<Rightarrow> [] | Some x \<Rightarrow> [x])"
    proof (cases r1)
      case None
      obtain r2 s2 where 2: "for_each js body s1 = (r2, s2)" by (cases "for_each js body s1")
      show ?thesis
        using 1 None a 2 honestD [OF hb 2] by simp
    next
      case (Some x)
      then show ?thesis
        using 1 a by simp
    qed
  qed
qed

lemma honest_assign_gen_data: "honest (assign_gen_data X pos)"
  by (simp add: honest_def assign_gen_data_def split: sum.splits prod.splits)

lemma honest_append_loss: "honest (append_loss X)"
  by (simp add: honest_def append_loss_def split: sum.splits option.splits)

lemma honest_print_losses: "honest print_losses"
  by (simp add: honest_def print_losses_def)

lemma honest_print_delta: "honest (print_delta X)"
  by (simp add: honest_def print_delta_def split: option.splits)

lemma honest_assign_delta: "honest (assign_delta X)"
  by (simp add: honest_def assign_delta_def split: option.splits)

lemma honest_update_delta: "honest (update_delta X)"
proof -
  have "honest (block [\<lambda>s. (None, s\<lparr>old_delta := delta s\<rparr>), assign_delta X, print_delta X])"
    by (rule honest_block) (auto simp: honest_assign_delta honest_print_delta, simp add: honest_def)
  then show ?thesis
    by (simp add: honest_def update_delta_def)
qed

lemma honest_run_sim: "honest (run_sim X)"
  by (simp add: honest_def run_sim_def split: sum.splits)

lemma honest_incr_counted: "honest incr_counted"
  by (simp add: honest_def incr_counted_def)

lemma honest_train: "honest (train X)"
  by (simp add: honest_def train_def Let_def split: sum.splits option.splits)

lemma honest_update_round_time: "honest (update_round_time X i)"
  by (simp add: honest_def update_round_time_def time_time_def Let_def split: option.splits)

lemma honest_restart_timer: "honest (restart_timer X)"
  by (simp add: honest_def restart_timer_def time_time_def)

lemma honest_print_ETA: "honest (print_ETA X e i)"
  by (simp add: honest_def print_ETA_def split: option.splits)

lemma honest_batch_body: "honest (batch_body X e i)"
  unfolding batch_body_def
  by (rule honest_block)
     (auto simp: honest_assign_gen_data honest_train honest_update_round_time
        honest_restart_timer honest_print_ETA, simp add: honest_def)

lemma honest_repetition_body: "honest (repetition_body X e)"
  unfolding repetition_body_def
  by (rule honest_block)
     (auto simp: honest_assign_gen_data honest_append_loss honest_print_losses
        honest_update_delta honest_run_sim honest_incr_counted
        intro: honest_for_each honest_batch_body)















lemma gen_rows_failure:
  "gen_rows present_run n pos ks acc = Inl x \<Longrightarrow>
   \<exists>k e. k \<in> set ks \<and> present_run (pos + k) n = Inl e \<and> x = LibError e"
proof (induction ks arbitrary: acc)
  case Nil
  then show ?case by simp
next
  case (Cons k ks)
  show ?case
  proof (cases "present_run (pos + k) n")
    case (Inl e)
    then have "x = LibError e"
      using Cons.prems by simp
    then show ?thesis
      using Inl by auto
  next
    case (Inr row)
    then have "gen_rows present_run n pos ks (acc @ [row]) = Inl x"
      using Cons.prems by simp
    then show ?thesis
      using Cons.IH by fastforce
  qed
qed





subsection \<open>The state the training loop keeps, and the objects of the two classes\<close>

lemma gen_data_failure: "gen_data present_run n batchsize pos = Inl x \<Longrightarrow> \<exists>e. x = LibError e"
proof -
  assume "gen_data present_run n batchsize pos = Inl x"
  then have "gen_rows present_run n pos [0..batchsize - 1] [] = Inl x"
    by (simp add: gen_data_def split: sum.splits)
  then show ?thesis
    using gen_rows_failure [of present_run n pos "[0..batchsize - 1]" "[]" x] by blast
qed

lemma inv_assign_gen_data: "triple (tallied k) (assign_gen_data X pos) (tallied k) not_index"
proof (rule tripleI)
  fix s r s'
  assume pre: "tallied k s" and run: "assign_gen_data X pos s = (r, s')"
  show "(r = None \<longrightarrow> tallied k s') \<and> (r \<noteq> None \<longrightarrow> not_index s')"
  proof (cases "gen_data (present X) steps n_examples pos")
    case (Inl x)
    then obtain e where "x = LibError e"
      using gen_data_failure by blast
    then show ?thesis
      using run Inl by (auto simp: assign_gen_data_def not_index_def)
  next
    case (Inr d)
    then show ?thesis
      using pre run by (auto simp: assign_gen_data_def tallied_def split: prod.splits)
  qed
qed

lemma inv_append_loss: "triple (tallied 0) (append_loss X) (tallied 1) not_index"
  by (rule tripleI)
     (auto simp: append_loss_def tallied_def not_index_def split: option.splits sum.splits)

lemma inv_print_losses: "triple (tallied k) print_losses (tallied k) not_index"
  by (rule tripleI) (auto simp: print_losses_def tallied_def)

lemma inv_update_delta: "triple (tallied 1) (update_delta X) (tallied 1) not_index"
proof (rule tripleI)
  fix s r s'
  assume pre: "tallied 1 s" and run: "update_delta X s = (r, s')"
  show "(r = None \<longrightarrow> tallied 1 s') \<and> (r \<noteq> None \<longrightarrow> not_index s')"
  proof (cases "0 < counted s")
    case False
    then show ?thesis
      using pre run by (auto simp: update_delta_def)
  next
    case True
    have a: "getitem (losses s) (counted s) = Some (losses s ! nat (counted s))"
      using pre True by (intro getitem_in_range) (simp_all add: tallied_def)
    have b: "getitem (losses s) (counted s - 1) = Some (losses s ! nat (counted s - 1))"
      using pre True by (intro getitem_in_range) (simp_all add: tallied_def)
    show ?thesis
      using pre run True a b
      by (auto simp: update_delta_def assign_delta_def print_delta_def tallied_def)
  qed
qed

lemma inv_run_sim: "triple (tallied k) (run_sim X) (tallied k) not_index"
  by (rule tripleI) (auto simp: run_sim_def tallied_def not_index_def split: sum.splits)

lemma inv_incr_counted: "triple (tallied 1) incr_counted (tallied 0) not_index"
  by (rule tripleI) (auto simp: incr_counted_def tallied_def)

lemma inv_train: "triple (tallied k) (train X) (tallied k) not_index"
  by (rule tripleI)
     (auto simp: train_def Let_def tallied_def not_index_def split: option.splits sum.splits)

lemma inv_update_round_time: "triple (tallied k) (update_round_time X i) (tallied k) not_index"
  by (rule tripleI)
     (auto simp: update_round_time_def time_time_def Let_def tallied_def not_index_def
        split: option.splits)

lemma inv_restart_timer: "triple (tallied k) (restart_timer X) (tallied k) not_index"
  by (rule tripleI) (auto simp: restart_timer_def time_time_def tallied_def)

lemma inv_print_ETA: "triple (tallied k) (print_ETA X e i) (tallied k) not_index"
  by (rule tripleI)
     (auto simp: print_ETA_def tallied_def not_index_def split: option.splits)

lemma inv_print_progress:
  "triple (tallied k) (\<lambda>s. (None, s\<lparr>stdout := stdout s @ [Print_progress a b]\<rparr>))
     (tallied k) not_index"
  by (rule tripleI) (auto simp: tallied_def)

lemma inv_batch_body: "triple (tallied 0) (batch_body X e i) (tallied 0) not_index"
  unfolding batch_body_def
  by (rule triple_cons triple_nil inv_print_progress inv_assign_gen_data inv_train
        inv_update_round_time inv_restart_timer inv_print_ETA
      | assumption)+

lemma inv_repetition_body: "triple (tallied 0) (repetition_body X e) (tallied 0) not_index"
  unfolding repetition_body_def
  by (rule triple_cons triple_nil triple_for_each inv_assign_gen_data inv_append_loss
        inv_print_losses inv_update_delta inv_run_sim inv_incr_counted inv_batch_body
      | assumption)+

lemma inv_repetitions:
  assumes pre: "tallied 0 s" and run: "for_each es (repetition_body X) s = (r, s')"
  shows "r \<noteq> Some IndexError \<and> (r = None \<longrightarrow> tallied 0 s')"
proof -
  have t: "triple (tallied 0) (for_each es (repetition_body X)) (tallied 0) not_index"
    by (rule triple_for_each) (rule inv_repetition_body)
  have h: "honest (for_each es (repetition_body X))"
    by (rule honest_for_each) (rule honest_repetition_body)
  note a = tripleD [OF t pre run] and b = honestD [OF h run]
  show ?thesis
  proof (cases r)
    case None
    then show ?thesis using a by simp
  next
    case (Some x)
    then have "last (raised s') = x" "not_index s'"
      using a b by simp_all
    then show ?thesis
      using Some by (auto simp: not_index_def)
  qed
qed

text \<open>
  C6, as the specification states it, has the notebooks define no entity and no lifecycle
  of their own, and keep no mutable state of their own across the iterations of a loop of
  their own. The autoencoder notebook does both. Its training cell keeps state across its
  loop: with the example library, two passes of \<open>for e in range(repetitions)\<close>
  complete, and the counter, 0 before the first pass, is 2 after the second, where
  \<open>losses\<close>, empty before the first pass, holds 2 values. And its \<open>Decoder\<close> class
  makes objects with a lifecycle: a new object has \<open>size_out\<close> unset, and its
  \<open>__call__\<close> raises AttributeError; \<open>pre_build\<close> sets the three attributes from the
  shapes, and after it \<open>__call__\<close> returns the output of the two layers.
\<close>

theorem training_loop_state_counterexample:
  "counted at_start = 0 \<and> losses at_start = []
   \<and> fst (for_each [0, 1] (repetition_body ext0) at_start) = None
   \<and> counted (snd (for_each [0, 1] (repetition_body ext0) at_start)) = 2
   \<and> length (losses (snd (for_each [0, 1] (repetition_body ext0) at_start))) = 2
   \<and> size_out (Decoder :: int tensor_func) = None
   \<and> Decoder_call fc0 Decoder (0 :: int) [784] 0 = (Inl AttributeError, 1)
   \<and> fst (pre_build Decoder [64, 128] [64, 784] :: string exn option \<times> int tensor_func) = None
   \<and> dec0 = \<lparr>n_mini = Some 64, size_in = Some 128, size_out = Some 784\<rparr>
   \<and> Decoder_call fc0 dec0 (0 :: int) [784] 0 = (Inr [784, 256, 784], 2)"
proof -
  have a: "counted at_start = 0" "losses at_start = []"
    by (simp_all add: at_start_def init_vars_def enter_simulator_def time_time_def ext0_def)
  then have t: "tallied 0 at_start"
    by (simp add: tallied_def)
  have c: "fst (for_each [0, 1] (repetition_body ext0) at_start) = None"
    by (rule repetitions_complete [OF reliable_ext0 t])
  then have run: "for_each [0, 1] (repetition_body ext0) at_start
      = (None, snd (for_each [0, 1] (repetition_body ext0) at_start))"
    by (simp add: prod_eq_iff)
  have "adds (for_each [0, 1] (repetition_body ext0)) (length [0, 1 :: int] * 1)
      (int (length [0, 1 :: int]) * 1) (length [0, 1 :: int] * 859)"
    by (rule adds_for_each) (rule adds_repetition_body)
  then have l: "counted (snd (for_each [0, 1] (repetition_body ext0) at_start)) = 2
      \<and> length (losses (snd (for_each [0, 1] (repetition_body ext0) at_start))) = 2"
    using a c run by (simp add: adds_def)
  have d: "size_out (Decoder :: int tensor_func) = None"
    "Decoder_call fc0 Decoder (0 :: int) [784] 0 = (Inl AttributeError, 1)"
    "fst (pre_build Decoder [64, 128] [64, 784] :: string exn option \<times> int tensor_func) = None"
    "dec0 = \<lparr>n_mini = Some 64, size_in = Some 128, size_out = Some 784\<rparr>"
    "Decoder_call fc0 dec0 (0 :: int) [784] 0 = (Inr [784, 256, 784], 2)"
    by (simp_all add: Decoder_def Decoder_call_def fc0_def dec0_def pre_build_def getitem_def
          n_hidden_1_def)
  show ?thesis
    using a c l d by simp
qed

text \<open>
  C6, amended. The autoencoder notebook defines entities of its own with a lifecycle, and
  keeps mutable state of its own, under an invariant, across its own loops.
  \<^item> When \<open>k\<close> passes of \<open>for e in range(repetitions)\<close> complete, the counter
    \<open>counted\<close> has grown by \<open>k\<close>, the list \<open>losses\<close> holds \<open>k\<close> more values, and
    \<open>sim.train\<close> was called \<open>859 * k\<close> more times (once per pass of the inner
    \<open>for i in range(n_iters)\<close> loop).
  \<^item> \<open>len(losses) = counted\<close> is an invariant of that loop: if it holds before the
    passes, no pass raises IndexError (the reads of \<open>losses[counted]\<close> and
    \<open>losses[counted-1]\<close> are in range), and it holds again when the passes complete.
  \<^item> An \<open>Encoder\<close> or \<open>Decoder\<close> object is created with \<open>n_mini\<close>, \<open>size_in\<close> and
    \<open>size_out\<close> unset; \<open>pre_build\<close> sets them to \<open>shape_in[0]\<close>, \<open>shape_in[1]\<close>
    and \<open>shape_out[1]\<close>; \<open>Decoder.__call__\<close> raises AttributeError after its first
    layer while \<open>size_out\<close> is unset, and never once it is set.
\<close>

theorem training_loop_state:
  fixes X :: "('e, 'sim, 'arr, 'f) ext" and fc :: "('e, 'x, 'g) dense"
    and obj :: "'d tensor_func"
  shows
    "(for_each es (repetition_body X) s = (None, s') \<longrightarrow>
        counted s' = counted s + int (length es)
        \<and> length (losses s') = length (losses s) + length es
        \<and> length (trained s') = length (trained s) + 859 * length es)
     \<and> (int (length (losses s)) = counted s \<and> for_each es (repetition_body X) s = (r, s') \<longrightarrow>
          r \<noteq> Some IndexError \<and> (r = None \<longrightarrow> int (length (losses s')) = counted s'))
     \<and> n_mini (Encoder :: 'd tensor_func) = None \<and> size_in (Encoder :: 'd tensor_func) = None
     \<and> size_out (Encoder :: 'd tensor_func) = None
     \<and> n_mini (Decoder :: 'd tensor_func) = None \<and> size_in (Decoder :: 'd tensor_func) = None
     \<and> size_out (Decoder :: 'd tensor_func) = None
     \<and> (getitem shape_in 0 = Some a \<and> getitem shape_in 1 = Some b \<and> getitem shape_out 1 = Some c
          \<longrightarrow> pre_build obj shape_in shape_out =
                (None :: 'e exn option, obj\<lparr>n_mini := Some a, size_in := Some b, size_out := Some c\<rparr>))
     \<and> (size_out self = None \<and> fc x 256 g = (Inr y, g1) \<longrightarrow>
          Decoder_call fc self t x g = (Inl AttributeError, g1))
     \<and> (size_out self \<noteq> None \<longrightarrow> fst (Decoder_call fc self t x g) \<noteq> Inl AttributeError)"
proof -
  have 1: "for_each es (repetition_body X) s = (None, s') \<longrightarrow>
        counted s' = counted s + int (length es)
        \<and> length (losses s') = length (losses s) + length es
        \<and> length (trained s') = length (trained s) + 859 * length es"
  proof
    assume run: "for_each es (repetition_body X) s = (None, s')"
    have "adds (for_each es (repetition_body X)) (length es * 1) (int (length es) * 1)
        (length es * 859)"
      by (rule adds_for_each) (rule adds_repetition_body)
    then show "counted s' = counted s + int (length es)
        \<and> length (losses s') = length (losses s) + length es
        \<and> length (trained s') = length (trained s) + 859 * length es"
      using run by (simp add: adds_def)
  qed
  have 2: "int (length (losses s)) = counted s \<and> for_each es (repetition_body X) s = (r, s') \<longrightarrow>
          r \<noteq> Some IndexError \<and> (r = None \<longrightarrow> int (length (losses s')) = counted s')"
    using inv_repetitions [of s es X r s'] by (simp add: tallied_def)
  have 3: "n_mini (Encoder :: 'd tensor_func) = None" "size_in (Encoder :: 'd tensor_func) = None"
    "size_out (Encoder :: 'd tensor_func) = None"
    "n_mini (Decoder :: 'd tensor_func) = None" "size_in (Decoder :: 'd tensor_func) = None"
    "size_out (Decoder :: 'd tensor_func) = None"
    by (simp_all add: Encoder_def Decoder_def)
  have 4: "getitem shape_in 0 = Some a \<and> getitem shape_in 1 = Some b \<and> getitem shape_out 1 = Some c
          \<longrightarrow> pre_build obj shape_in shape_out =
                (None :: 'e exn option, obj\<lparr>n_mini := Some a, size_in := Some b, size_out := Some c\<rparr>)"
    by (simp add: pre_build_def)
  have 5: "size_out self = None \<and> fc x 256 g = (Inr y, g1) \<longrightarrow>
          Decoder_call fc self t x g = (Inl AttributeError, g1)"
    by (simp add: Decoder_call_def n_hidden_1_def)
  have 6: "size_out self \<noteq> None \<longrightarrow> fst (Decoder_call fc self t x g) \<noteq> Inl AttributeError"
    by (auto simp: Decoder_call_def split: prod.splits sum.splits option.splits)
  show ?thesis
    by (intro conjI) (rule 1 2 3 4 5 6)+
qed

theorem training_loop_state_witness:
  "for_each [0..repetitions - 1] (repetition_body ext0) at_start
     = (None, snd (for_each [0..repetitions - 1] (repetition_body ext0) at_start))
   \<and> int (length (losses at_start)) = counted at_start
   \<and> counted (snd (for_each [0..repetitions - 1] (repetition_body ext0) at_start)) = 15
   \<and> length (losses (snd (for_each [0..repetitions - 1] (repetition_body ext0) at_start))) = 15
   \<and> length (trained (snd (for_each [0..repetitions - 1] (repetition_body ext0) at_start))) = 12885
   \<and> getitem [64, 128 :: int] 0 = Some 64 \<and> getitem [64, 128 :: int] 1 = Some 128
   \<and> getitem [64, 784 :: int] 1 = Some 784
   \<and> pre_build Decoder [64, 128] [64, 784] =
       (None :: string exn option, \<lparr>n_mini = Some 64, size_in = Some 128, size_out = Some (784 :: int)\<rparr>)
   \<and> size_out (Decoder :: int tensor_func) = None
   \<and> fc0 [784] 256 0 = (Inr [784, 256], 1)
   \<and> Decoder_call fc0 Decoder (0 :: int) [784] 0 = (Inl AttributeError, 1)
   \<and> size_out dec0 \<noteq> None
   \<and> fst (Decoder_call fc0 dec0 (0 :: int) [784] 0) \<noteq> Inl AttributeError"
proof -
  let ?run = "for_each [0..repetitions - 1] (repetition_body ext0) at_start"
  have a: "counted at_start = 0" "losses at_start = []" "trained at_start = []"
    by (simp_all add: at_start_def init_vars_def enter_simulator_def time_time_def ext0_def s0_def)
  then have t: "tallied 0 at_start" and t': "int (length (losses at_start)) = counted at_start"
    by (simp_all add: tallied_def)
  have c: "fst ?run = None"
    by (rule repetitions_complete [OF reliable_ext0 t])
  then have run: "?run = (None, snd ?run)"
    by (simp add: prod_eq_iff)
  have g: "getitem [64, 128 :: int] 0 = Some 64" "getitem [64, 128 :: int] 1 = Some 128"
    "getitem [64, 784 :: int] 1 = Some 784"
    by (simp_all add: getitem_def)
  have u: "size_out (Decoder :: int tensor_func) = None"
    by (simp add: Decoder_def)
  have f: "fc0 [784] 256 0 = (Inr [784, 256], 1)"
    by (simp add: fc0_def)
  have so: "size_out dec0 \<noteq> None"
    by (simp add: dec0_def pre_build_def getitem_def)
  note w1 = training_loop_state [where X = ext0 and es = "[0..repetitions - 1]" and s = at_start
      and r = None and s' = "snd ?run"
      and obj = "Decoder :: int tensor_func" and shape_in = "[64, 128]" and shape_out = "[64, 784]"
      and a = 64 and b = 128 and c = 784
      and self = Decoder and fc = fc0 and x = "[784]" and g = 0 and y = "[784, 256]"
      and ?g1.0 = 1 and t = "0 :: int"]
  note w2 = training_loop_state [where X = ext0 and es = "[0..repetitions - 1]" and s = at_start
      and r = None and s' = "snd ?run"
      and obj = "Decoder :: int tensor_func" and shape_in = "[64, 128]" and shape_out = "[64, 784]"
      and a = 64 and b = 128 and c = 784
      and self = dec0 and fc = fc0 and x = "[784]" and g = 0 and y = "[784, 256]"
      and ?g1.0 = 1 and t = "0 :: int"]
  have e1: "counted (snd ?run) = counted at_start + int (length [0..repetitions - 1])
        \<and> length (losses (snd ?run)) = length (losses at_start) + length [0..repetitions - 1]
        \<and> length (trained (snd ?run)) = length (trained at_start) + 859 * length [0..repetitions - 1]"
    by (rule w1 [THEN conjunct1, rule_format]) (rule run)
  have e1': "counted (snd ?run) = 15 \<and> length (losses (snd ?run)) = 15
      \<and> length (trained (snd ?run)) = 12885"
    using e1 a by (simp add: repetitions_def)
  have e2: "(None :: string exn option) \<noteq> Some IndexError
      \<and> (None = (None :: string exn option) \<longrightarrow> int (length (losses (snd ?run))) = counted (snd ?run))"
    by (rule w1 [THEN conjunct2, THEN conjunct1, rule_format]) (intro conjI t' run)
  have e3: "pre_build Decoder [64, 128] [64, 784] =
       (None :: string exn option,
        (Decoder :: int tensor_func)\<lparr>n_mini := Some 64, size_in := Some 128, size_out := Some 784\<rparr>)"
    by (rule w1 [THEN conjunct2, THEN conjunct2, THEN conjunct2, THEN conjunct2, THEN conjunct2,
          THEN conjunct2, THEN conjunct2, THEN conjunct2, THEN conjunct1, rule_format])
       (intro conjI g)
  have e3': "pre_build Decoder [64, 128] [64, 784] =
       (None :: string exn option, \<lparr>n_mini = Some 64, size_in = Some 128, size_out = Some (784 :: int)\<rparr>)"
    using e3 by (simp add: Decoder_def)
  have e4: "Decoder_call fc0 Decoder (0 :: int) [784] 0 = (Inl AttributeError, 1)"
    by (rule w1 [THEN conjunct2, THEN conjunct2, THEN conjunct2, THEN conjunct2, THEN conjunct2,
          THEN conjunct2, THEN conjunct2, THEN conjunct2, THEN conjunct2, THEN conjunct1,
          rule_format])
       (intro conjI u f)
  have e5: "fst (Decoder_call fc0 dec0 (0 :: int) [784] 0) \<noteq> Inl AttributeError"
    by (rule w2 [THEN conjunct2, THEN conjunct2, THEN conjunct2, THEN conjunct2, THEN conjunct2,
          THEN conjunct2, THEN conjunct2, THEN conjunct2, THEN conjunct2, THEN conjunct2,
          rule_format])
       (rule so)
  show ?thesis
    using run t' e1' g e3' u f e4 so e5 by simp
qed

end
